theory Spec2Isabelle
  imports Main "HOL-Library.AList"
begin

section \<open>JavaScript values\<close>

text \<open>
  The agent passes JSON-shaped values around (decisions of the language model, extracted
  payloads). Only their shape and their truthiness matter to the control flow, so numbers
  are integers here: \<open>0\<close> is the falsy number.
\<close>

datatype json =
    JUndefined
  | JNull
  | JBool bool
  | JNum int
  | JStr string
  | JArr "json list"
  | JObj "(string \<times> json) list"

text \<open>JavaScript truthiness, as \<open>if (v)\<close>, \<open>v || d\<close> and \<open>!v\<close> read a value.\<close>

fun truthy :: "json \<Rightarrow> bool" where
  "truthy JUndefined = False"
| "truthy JNull = False"
| "truthy (JBool b) = b"
| "truthy (JNum n) = (n \<noteq> 0)"
| "truthy (JStr s) = (s \<noteq> [])"
| "truthy (JArr xs) = True"
| "truthy (JObj kvs) = True"

text \<open>\<open>v || d\<close> on values.\<close>

definition or_else :: "json \<Rightarrow> json \<Rightarrow> json" where
  "or_else v d = (if truthy v then v else d)"

text \<open>
  An optional string property: \<open>None\<close> is \<open>undefined\<close>; the empty string is falsy
  as well.
\<close>

fun truthy_str :: "string option \<Rightarrow> bool" where
  "truthy_str None = False"
| "truthy_str (Some s) = (s \<noteq> [])"

text \<open>\<open>Array.prototype.join\<close> on strings.\<close>

fun join :: "string \<Rightarrow> string list \<Rightarrow> string" where
  "join sep [] = []"
| "join sep [x] = x"
| "join sep (x # y # ys) = x @ sep @ join sep (y # ys)"

text \<open>
  A call either throws an \<open>Error\<close> (\<open>Inl\<close> of its message) or returns (\<open>Inr\<close>).
  \<open>try_catch\<close> is \<open>try { body } catch (error) { handler(error.message) }\<close>.
\<close>

type_synonym 'a outcome = "string + 'a"

definition try_catch :: "'a outcome \<Rightarrow> (string \<Rightarrow> 'a outcome) \<Rightarrow> 'a outcome" where
  "try_catch body handler = (case body of Inl msg \<Rightarrow> handler msg | Inr v \<Rightarrow> Inr v)"

section \<open>Actions, outcomes and the page\<close>

text \<open>
  A decision of the language model and the parsed action are the same kind of object:
  the kind tag \<open>action_type\<close>, the rationale \<open>reasoning\<close> and the kind-specific
  properties the plugins and the agent read. \<open>step\<close> is an own property named
  \<open>step\<close>, which an action need not have (\<open>None\<close>): the agent never reads it,
  but it spreads the action into the log entry.
\<close>

record action =
  action_type :: string
  reasoning :: string
  element_id :: "string option"
  reason :: json
  extracted_data :: json
  output_format :: "string option"
  output_title :: "string option"
  errors :: "string list"
  step :: "json option"

text \<open>What a handler returns: \<open>{success, error?, data?, message?}\<close>.\<close>

record exec_result =
  success :: bool
  error :: "string option"
  data :: json
  message :: "string option"

definition ok_result :: exec_result where
  "ok_result = \<lparr>success = True, error = None, data = JUndefined, message = None\<rparr>"

definition failure :: "string \<Rightarrow> exec_result" where
  "failure msg = \<lparr>success = False, error = Some msg, data = JUndefined, message = None\<rparr>"

text \<open>
  The element table of one step holds, under an opaque identifier, the descriptor of the
  element: tag, structural locator and salient attributes (\<open>None\<close> for a property the
  descriptor does not have). The table is a plain object and \<open>element_map\<close> gives its
  own properties.
\<close>

record element_info =
  el_tag :: "string option"
  el_xpath :: "string option"
  el_name :: "string option"
  el_aria_label :: "string option"
  el_type :: "string option"

type_synonym element_map = "string \<rightharpoonup> element_info"

text \<open>
  The browser page is an external capability. The model holds what its calls answer:
  \<open>locator\<close> is \<open>page.locator(sel).first().elementHandle()\<close> and \<open>query\<close> is
  \<open>page.$(sel)\<close>, each throwing or returning a handle or \<open>null\<close>; \<open>query_all\<close> is
  \<open>page.$$(sel)\<close>, throwing or returning the handles found; \<open>click\<close> and
  \<open>hover\<close> are the element operations, \<open>None\<close> when they return and the message
  when they throw.
\<close>

datatype handle = Handle nat

record page =
  locator :: "string \<Rightarrow> handle option outcome"
  query :: "string \<Rightarrow> handle option outcome"
  query_all :: "string \<Rightarrow> handle list outcome"
  click :: "handle \<Rightarrow> string option"
  hover :: "handle \<Rightarrow> string option"

section \<open>Element resolution (BaseAction)\<close>

text \<open>
  \<open>this.elementMap[elementId]\<close> reads a property of a plain object, so a key that is not
  an own property is looked up in \<open>Object.prototype\<close>: \<open>constructor\<close> and the methods
  are functions, whose \<open>name\<close> is a string (\<open>Object\<close> for the constructor, the key for
  a method) and which have none of the other properties of a descriptor, and
  \<open>__proto__\<close> is the prototype object, which has none of them.
\<close>

definition prototype_methods :: "string list" where
  "prototype_methods =
     [''__defineGetter__'', ''__defineSetter__'', ''hasOwnProperty'', ''__lookupGetter__'',
      ''__lookupSetter__'', ''isPrototypeOf'', ''propertyIsEnumerable'', ''toString'',
      ''valueOf'', ''toLocaleString'']"

definition function_named :: "string \<Rightarrow> element_info" where
  "function_named nm =
     \<lparr>el_tag = None, el_xpath = None, el_name = Some nm, el_aria_label = None, el_type = None\<rparr>"

definition inherited :: "string \<Rightarrow> element_info option" where
  "inherited key =
     (if key = ''constructor'' then Some (function_named ''Object'')
      else if key \<in> set prototype_methods then Some (function_named key)
      else if key = ''__proto__''
        then Some \<lparr>el_tag = None, el_xpath = None, el_name = None, el_aria_label = None,
                    el_type = None\<rparr>
      else None)"

definition lookup :: "element_map \<Rightarrow> string \<Rightarrow> element_info option" where
  "lookup elementMap key =
     (case elementMap key of Some info \<Rightarrow> Some info | None \<Rightarrow> inherited key)"

text \<open>
  \<open>BaseAction\<close> exists in two copies. In the one with attribute fallbacks,
  \<open>getElement\<close> wants an identifier that is given and found in the element table; then
  the stored structural locator is tried (a fault of the locator is swallowed), and while
  no element is found the \<open>name\<close> attribute, the \<open>aria-label\<close> attribute and, for an
  \<open>input\<close> tag, the input \<open>type\<close> are queried in that order. A fault of \<open>page.$\<close> is
  not caught and propagates.
\<close>

definition by_xpath :: "page \<Rightarrow> element_info \<Rightarrow> handle option" where
  "by_xpath pg info =
     (case el_xpath info of
        None \<Rightarrow> None
      | Some xp \<Rightarrow>
          if xp = [] then None
          else (case locator pg (''xpath='' @ xp) of Inl e \<Rightarrow> None | Inr h \<Rightarrow> h))"

definition name_selector :: "string \<Rightarrow> string" where
  \<open>name_selector n = ''[name="'' @ n @ ''"]''\<close>

definition aria_selector :: "string \<Rightarrow> string" where
  \<open>aria_selector l = ''[aria-label="'' @ l @ ''"]''\<close>

definition type_selector :: "string \<Rightarrow> string" where
  \<open>type_selector t = ''input[type="'' @ t @ ''"]''\<close>

text \<open>
  One fallback step \<open>if (!element && attr) element = await page.$(selector)\<close>: the
  page is asked only while no element is found and the attribute is a non-empty string.
\<close>

definition fallback ::
  "page \<Rightarrow> string option \<Rightarrow> (string \<Rightarrow> string) \<Rightarrow> handle option \<Rightarrow> handle option outcome" where
  "fallback pg attr selector element =
     (case attr of
        None \<Rightarrow> Inr element
      | Some v \<Rightarrow> if element = None \<and> v \<noteq> [] then query pg (selector v) else Inr element)"

definition by_name :: "page \<Rightarrow> element_info \<Rightarrow> handle option \<Rightarrow> handle option outcome" where
  "by_name pg info element = fallback pg (el_name info) name_selector element"

definition by_aria_label :: "page \<Rightarrow> element_info \<Rightarrow> handle option \<Rightarrow> handle option outcome" where
  "by_aria_label pg info element = fallback pg (el_aria_label info) aria_selector element"

definition by_input_type :: "page \<Rightarrow> element_info \<Rightarrow> handle option \<Rightarrow> handle option outcome" where
  "by_input_type pg info element =
     (if el_tag info = Some ''input'' then fallback pg (el_type info) type_selector element
      else Inr element)"

definition not_found :: "string \<Rightarrow> string" where
  "not_found elementId = ''Could not locate element: '' @ elementId"

definition getElement :: "page \<Rightarrow> element_map \<Rightarrow> string option \<Rightarrow> handle outcome" where
  "getElement pg elementMap elementId =
     (case elementId of
        None \<Rightarrow> Inl ''Element ID is required''
      | Some eid \<Rightarrow>
          if eid = [] then Inl ''Element ID is required''
          else
            (case lookup elementMap eid of
               None \<Rightarrow> Inl (''Element '' @ eid @ '' not found in map'')
             | Some info \<Rightarrow>
                 (case by_name pg info (by_xpath pg info) of
                    Inl e \<Rightarrow> Inl e
                  | Inr e1 \<Rightarrow>
                      (case by_aria_label pg info e1 of
                         Inl e \<Rightarrow> Inl e
                       | Inr e2 \<Rightarrow>
                           (case by_input_type pg info e2 of
                              Inl e \<Rightarrow> Inl e
                            | Inr None \<Rightarrow> Inl (not_found eid)
                            | Inr (Some h) \<Rightarrow> Inr h)))))"

text \<open>
  In the other copy, \<open>getElement\<close> queries the page for the \<open>data-uuid\<close> attribute
  (a fault propagates) and, when that finds nothing and the descriptor has a locator, takes
  the first element of \<open>page.$$(':xpath(' + xpath + ')')\<close>, a fault of which counts as no
  element. It has no attribute fallback.
\<close>

definition uuid_selector :: "string \<Rightarrow> string" where
  \<open>uuid_selector elementId = ''[data-uuid="'' @ elementId @ ''"]''\<close>

definition first_by_xpath :: "page \<Rightarrow> element_info \<Rightarrow> handle option" where
  "first_by_xpath pg info =
     (case el_xpath info of
        None \<Rightarrow> None
      | Some xp \<Rightarrow>
          if xp = [] then None
          else (case query_all pg ('':xpath('' @ xp @ '')'') of
                  Inl e \<Rightarrow> None
                | Inr [] \<Rightarrow> None
                | Inr (h # hs) \<Rightarrow> Some h))"

definition getElement_uuid :: "page \<Rightarrow> element_map \<Rightarrow> string option \<Rightarrow> handle outcome" where
  "getElement_uuid pg elementMap elementId =
     (case elementId of
        None \<Rightarrow> Inl ''Element ID is required''
      | Some eid \<Rightarrow>
          if eid = [] then Inl ''Element ID is required''
          else
            (case lookup elementMap eid of
               None \<Rightarrow> Inl (''Element '' @ eid @ '' not found in map'')
             | Some info \<Rightarrow>
                 (case query pg (uuid_selector eid) of
                    Inl e \<Rightarrow> Inl e
                  | Inr (Some h) \<Rightarrow> Inr h
                  | Inr None \<Rightarrow>
                      (case first_by_xpath pg info of
                         None \<Rightarrow> Inl (not_found eid)
                       | Some h \<Rightarrow> Inr h))))"

section \<open>Action plugins\<close>

text \<open>
  A plugin class: its static metadata and what \<open>new Cls(page, elementMap).execute(action)\<close>
  does. The statics are inherited from \<open>BaseAction\<close> when a plugin does not set them, so
  the flags are booleans.
\<close>

record action_class =
  static_type :: string
  static_requiresElement :: bool
  static_isCoordinate :: bool
  static_isTerminal :: bool
  static_description :: string
  handler_execute :: "page \<Rightarrow> element_map \<Rightarrow> action \<Rightarrow> exec_result outcome"

definition BaseAction_execute :: "string \<Rightarrow> page \<Rightarrow> element_map \<Rightarrow> action \<Rightarrow> exec_result outcome" where
  "BaseAction_execute ty pg elementMap params = Inl (''execute() not implemented for '' @ ty)"

definition BaseAction :: action_class where
  "BaseAction =
     \<lparr>static_type = ''unknown'', static_requiresElement = False, static_isCoordinate = False,
      static_isTerminal = False, static_description = ''Base action'',
      handler_execute = BaseAction_execute ''unknown''\<rparr>"

text \<open>
  \<open>element.click()\<close> and \<open>element.hover()\<close> on a resolved handle. The plugins
  call the \<open>getElement\<close> they inherit; they are given the copy with attribute
  fallbacks.
\<close>

definition on_element ::
  "(handle \<Rightarrow> string option) \<Rightarrow> page \<Rightarrow> element_map \<Rightarrow> action \<Rightarrow> exec_result outcome" where
  "on_element operate pg elementMap params =
     try_catch
       (case getElement pg elementMap (element_id params) of
          Inl e \<Rightarrow> Inl e
        | Inr h \<Rightarrow> (case operate h of Some e \<Rightarrow> Inl e | None \<Rightarrow> Inr ok_result))
       (\<lambda>msg. Inr (failure msg))"

definition ClickAction_execute :: "page \<Rightarrow> element_map \<Rightarrow> action \<Rightarrow> exec_result outcome" where
  "ClickAction_execute pg elementMap params = on_element (click pg) pg elementMap params"

definition HoverAction_execute :: "page \<Rightarrow> element_map \<Rightarrow> action \<Rightarrow> exec_result outcome" where
  "HoverAction_execute pg elementMap params = on_element (hover pg) pg elementMap params"

definition TerminateAction_execute :: "page \<Rightarrow> element_map \<Rightarrow> action \<Rightarrow> exec_result outcome" where
  "TerminateAction_execute pg elementMap params =
     Inr \<lparr>success = True, error = None,
          data = JObj [(''terminated'', JBool True),
                       (''reason'', or_else (reason params) (JStr ''Task terminated''))],
          message = None\<rparr>"

definition CompleteAction_execute :: "page \<Rightarrow> element_map \<Rightarrow> action \<Rightarrow> exec_result outcome" where
  "CompleteAction_execute pg elementMap params =
     Inr \<lparr>success = True, error = None, data = or_else (extracted_data params) JNull,
          message = None\<rparr>"

definition ClickAction :: action_class where
  "ClickAction =
     \<lparr>static_type = ''click'', static_requiresElement = True, static_isCoordinate = False,
      static_isTerminal = False, static_description = ''Click on an element'',
      handler_execute = ClickAction_execute\<rparr>"

definition HoverAction :: action_class where
  "HoverAction =
     \<lparr>static_type = ''hover'', static_requiresElement = True, static_isCoordinate = False,
      static_isTerminal = False, static_description = ''Hover over an element'',
      handler_execute = HoverAction_execute\<rparr>"

definition TerminateAction :: action_class where
  "TerminateAction =
     \<lparr>static_type = ''terminate'', static_requiresElement = False, static_isCoordinate = False,
      static_isTerminal = True,
      static_description = ''Terminate the agent - task cannot be completed'',
      handler_execute = TerminateAction_execute\<rparr>"

definition CompleteAction :: action_class where
  "CompleteAction =
     \<lparr>static_type = ''complete'', static_requiresElement = False, static_isCoordinate = False,
      static_isTerminal = True,
      static_description = ''Mark task as complete with extracted data'',
      handler_execute = CompleteAction_execute\<rparr>"

section \<open>The action registry\<close>

text \<open>
  \<open>ActionRegistry.actions\<close> is a JavaScript \<open>Map\<close> from kind to class: an association
  list in insertion order, where \<open>set\<close> on a present key replaces the value in place
  (\<open>AList.update\<close>) and \<open>get\<close> is \<open>map_of\<close>.
\<close>

type_synonym registry = "(string \<times> action_class) list"

definition register :: "action_class \<Rightarrow> registry \<Rightarrow> registry outcome" where
  \<open>register ActionClass actions =
     (if static_type ActionClass = [] \<or> static_type ActionClass = ''unknown''
      then Inl ''Action class must have a static "type" property''
      else Inr (AList.update (static_type ActionClass) ActionClass actions))\<close>

text \<open>
  A file of the plugins directory: \<open>require\<close> throws, or the module exports a class.
  \<open>loadPlugins\<close> goes through the files in order, skips a file that fails to load or
  whose class has no proper type, and registers the others. A missing directory is
  created empty, which registers nothing: it is the empty list here.
\<close>

datatype plugin_file = Broken string | Exports action_class

fun load_file :: "plugin_file \<Rightarrow> registry \<Rightarrow> registry" where
  "load_file (Broken msg) actions = actions"
| "load_file (Exports ActualClass) actions =
     (if static_type ActualClass \<noteq> [] \<and> static_type ActualClass \<noteq> ''unknown''
      then (case register ActualClass actions of Inl e \<Rightarrow> actions | Inr actions' \<Rightarrow> actions')
      else actions)"

definition loadPlugins :: "plugin_file list \<Rightarrow> registry \<Rightarrow> registry" where
  "loadPlugins files actions = fold load_file files actions"

definition get :: "registry \<Rightarrow> string \<Rightarrow> action_class option" where
  "get actions actionType = map_of actions actionType"

definition has :: "registry \<Rightarrow> string \<Rightarrow> bool" where
  "has actions actionType = (map_of actions actionType \<noteq> None)"

definition getTypes :: "registry \<Rightarrow> string list" where
  "getTypes actions = map fst actions"

definition requiresElement :: "registry \<Rightarrow> string \<Rightarrow> bool" where
  "requiresElement actions actionType =
     (case get actions actionType of Some ActionClass \<Rightarrow> static_requiresElement ActionClass
      | None \<Rightarrow> False)"

definition isTerminal :: "registry \<Rightarrow> string \<Rightarrow> bool" where
  "isTerminal actions actionType =
     (case get actions actionType of Some ActionClass \<Rightarrow> static_isTerminal ActionClass
      | None \<Rightarrow> False)"

text \<open>\<open>getAll\<close>: the registered kinds with their metadata, in registration order.\<close>

record action_meta =
  meta_type :: string
  meta_requiresElement :: bool
  meta_isCoordinate :: bool
  meta_isTerminal :: bool
  meta_description :: string

definition getAll :: "registry \<Rightarrow> action_meta list" where
  "getAll actions =
     map (\<lambda>(ty, ActionClass).
            \<lparr>meta_type = ty, meta_requiresElement = static_requiresElement ActionClass,
             meta_isCoordinate = static_isCoordinate ActionClass,
             meta_isTerminal = static_isTerminal ActionClass,
             meta_description = static_description ActionClass\<rparr>)
       actions"

definition getElementActions :: "registry \<Rightarrow> string list" where
  "getElementActions actions = map meta_type (filter meta_requiresElement (getAll actions))"

definition getTerminalActions :: "registry \<Rightarrow> string list" where
  "getTerminalActions actions = map meta_type (filter meta_isTerminal (getAll actions))"

section \<open>The action executor\<close>

text \<open>
  The constructor of \<open>ActionExecutor\<close> loads the plugins when the registry is empty.
\<close>

definition new_ActionExecutor :: "plugin_file list \<Rightarrow> registry \<Rightarrow> registry" where
  "new_ActionExecutor files actions =
     (if length (getTypes actions) = 0 then loadPlugins files actions else actions)"

text \<open>
  \<open>ActionExecutor.execute\<close>: an unknown kind is a failure outcome naming the kind and
  the registered kinds; otherwise the handler runs inside \<open>try\<close>/\<open>catch\<close>.
\<close>

definition unknown_action :: "registry \<Rightarrow> string \<Rightarrow> string" where
  "unknown_action actions ty =
     ''Unknown action type: '' @ ty @ ''. Available: '' @ join '', '' (getTypes actions)"

definition execute :: "registry \<Rightarrow> page \<Rightarrow> element_map \<Rightarrow> action \<Rightarrow> exec_result outcome" where
  "execute actions pg elementMap act =
     (case get actions (action_type act) of
        None \<Rightarrow> Inr (failure (unknown_action actions (action_type act)))
      | Some ActionClass \<Rightarrow>
          try_catch (handler_execute ActionClass pg elementMap act) (\<lambda>msg. Inr (failure msg)))"

section \<open>The registry over a process lifetime\<close>

text \<open>
  The registry is a singleton of the process. It starts empty, the import of the action
  types loads the plugins, and afterwards three things can reach it: a direct
  \<open>register\<close> call (a failed one leaves it as it is), another \<open>loadPlugins\<close> of the
  same directory, and the constructor of an executor. A history is additive when each
  \<open>register\<close> in it adds a kind that is not registered at that moment. \<open>loaded\<close> says
  that a registry still holds what the plugins directory loads.
\<close>

datatype registry_event = Register action_class | LoadPlugins | NewExecutor

fun apply_event :: "plugin_file list \<Rightarrow> registry_event \<Rightarrow> registry \<Rightarrow> registry" where
  "apply_event files (Register c) actions =
     (case register c actions of Inl e \<Rightarrow> actions | Inr actions' \<Rightarrow> actions')"
| "apply_event files LoadPlugins actions = loadPlugins files actions"
| "apply_event files NewExecutor actions = new_ActionExecutor files actions"

fun lifetime :: "plugin_file list \<Rightarrow> registry_event list \<Rightarrow> registry \<Rightarrow> registry" where
  "lifetime files [] actions = actions"
| "lifetime files (ev # evs) actions = lifetime files evs (apply_event files ev actions)"

fun additive :: "plugin_file list \<Rightarrow> registry_event list \<Rightarrow> registry \<Rightarrow> bool" where
  "additive files [] actions = True"
| "additive files (ev # evs) actions =
     ((case ev of Register c \<Rightarrow> \<not> has actions (static_type c) | _ \<Rightarrow> True) \<and>
      additive files evs (apply_event files ev actions))"

definition loaded :: "plugin_file list \<Rightarrow> registry \<Rightarrow> bool" where
  "loaded files actions =
     (\<forall>k c. get (loadPlugins files []) k = Some c \<longrightarrow> get actions k = Some c)"


section \<open>The decision provider (OpenRouter adapter)\<close>

text \<open>
  \<open>apiCall\<close> is a closure that may be invoked several times: \<open>apiCall n\<close> is the
  outcome of its \<open>n\<close>-th invocation (a parsed decision, or the error thrown).
  \<open>buildPrompt\<close> and the optional \<open>rateLimiter\<close> belong to the base adapter:
  \<open>generateAction\<close> takes the outcome of \<open>buildPrompt\<close>, which it calls outside its
  \<open>try\<close>, and the rate limiter's \<open>execute\<close> as parameters.
\<close>

type_synonym api_call = "nat \<Rightarrow> action outcome"

type_synonym rate_limiter = "api_call \<Rightarrow> action outcome"

definition fallback_action :: "string \<Rightarrow> action" where
  "fallback_action msg =
     \<lparr>action_type = ''terminate'', reasoning = ''LLM API error: '' @ msg, element_id = None,
      reason = JUndefined, extracted_data = JUndefined, output_format = None,
      output_title = None, errors = [msg], step = None\<rparr>"

definition generateAction :: "string outcome \<Rightarrow> rate_limiter option \<Rightarrow> api_call \<Rightarrow> action outcome" where
  "generateAction prompt rateLimiter apiCall =
     (case prompt of
        Inl e \<Rightarrow> Inl e
      | Inr p \<Rightarrow>
          try_catch
            (case rateLimiter of Some limiter \<Rightarrow> limiter apiCall | None \<Rightarrow> apiCall 0)
            (\<lambda>msg. Inr (fallback_action msg)))"

text \<open>
  Modelled from the spec: the rate limiter of the base adapter, a bounded retry that
  re-invokes the call up to a retry ceiling and gives up with the last error
  (\<open>ceiling\<close> retries after the first attempt; the backoff delays are not modelled).
\<close>

fun attempts :: "nat \<Rightarrow> nat \<Rightarrow> api_call \<Rightarrow> action outcome" where
  "attempts 0 i call = call i"
| "attempts (Suc n) i call =
     (case call i of Inr v \<Rightarrow> Inr v | Inl e \<Rightarrow> attempts n (Suc i) call)"

definition bounded_retry :: "nat \<Rightarrow> rate_limiter" where
  "bounded_retry ceiling call = attempts ceiling 0 call"

section \<open>The agent\<close>

text \<open>
  A log entry is \<open>{step: this.currentStep, ...action, result: {success, error}}\<close>,
  pushed after an action ran, or \<open>{step, action_type: 'error', error}\<close>, pushed by the
  \<open>catch\<close> of \<open>run\<close>. \<open>ActionEntry\<close> holds the parts of the object literal: the value
  of the counter, the action that is spread and the two properties of \<open>result\<close>. The
  properties of the entry are read through the functions below. The spread comes after
  \<open>step\<close>, so a \<open>step\<close> of the action replaces the counter in the entry; \<open>result\<close>
  comes after the spread.
\<close>

datatype log_entry =
    ActionEntry nat action bool "string option"
  | ErrorEntry nat string

fun entry_step :: "log_entry \<Rightarrow> json" where
  "entry_step (ActionEntry n act ok err) =
     (case step act of None \<Rightarrow> JNum (int n) | Some v \<Rightarrow> v)"
| "entry_step (ErrorEntry n msg) = JNum (int n)"

fun entry_type :: "log_entry \<Rightarrow> string" where
  "entry_type (ActionEntry n act ok err) = action_type act"
| "entry_type (ErrorEntry n msg) = ''error''"

fun entry_reasoning :: "log_entry \<Rightarrow> string option" where
  "entry_reasoning (ActionEntry n act ok err) = Some (reasoning act)"
| "entry_reasoning (ErrorEntry n msg) = None"

fun entry_reason :: "log_entry \<Rightarrow> json" where
  "entry_reason (ActionEntry n act ok err) = reason act"
| "entry_reason (ErrorEntry n msg) = JUndefined"

fun entry_extracted_data :: "log_entry \<Rightarrow> json" where
  "entry_extracted_data (ActionEntry n act ok err) = extracted_data act"
| "entry_extracted_data (ErrorEntry n msg) = JUndefined"

fun entry_output_format :: "log_entry \<Rightarrow> string option" where
  "entry_output_format (ActionEntry n act ok err) = output_format act"
| "entry_output_format (ErrorEntry n msg) = None"

fun entry_output_title :: "log_entry \<Rightarrow> string option" where
  "entry_output_title (ActionEntry n act ok err) = output_title act"
| "entry_output_title (ErrorEntry n msg) = None"

fun entry_success :: "log_entry \<Rightarrow> bool option" where
  "entry_success (ActionEntry n act ok err) = Some ok"
| "entry_success (ErrorEntry n msg) = None"

fun entry_error :: "log_entry \<Rightarrow> string option" where
  "entry_error (ActionEntry n act ok err) = err"
| "entry_error (ErrorEntry n msg) = Some msg"

record saved_file =
  file_format :: string
  file_path :: string

text \<open>The session record that \<open>saveResults\<close> writes and returns (the clock is left out).\<close>

record results =
  r_sessionId :: string
  totalSteps :: nat
  status :: string
  r_extractedData :: json
  outputFiles :: "saved_file list"
  r_actionLog :: "log_entry list"

datatype browser_state = NoBrowser | BrowserOpen | BrowserClosed

text \<open>
  The fields of the \<open>Agent\<close> object that \<open>run\<close> reads or writes, together with what
  the run leaves outside the object: the state of the browser context behind
  \<open>this.browser\<close> (\<open>NoBrowser\<close> is \<open>null\<close>) and the session record written to
  \<open>data/action-logs\<close> (file name and content).
\<close>

record agent =
  maxSteps :: nat
  waitBetweenActions :: nat
  sessionId :: string
  actionLog :: "log_entry list"
  extractedData :: json
  outputFormat :: "string option"
  outputTitle :: "string option"
  currentStep :: nat
  browser :: browser_state
  logFile :: "(string \<times> results) option"

definition new_Agent :: "nat \<Rightarrow> nat \<Rightarrow> string \<Rightarrow> agent" where
  "new_Agent max_steps wait sid =
     \<lparr>maxSteps = max_steps, waitBetweenActions = wait, sessionId = sid, actionLog = [],
      extractedData = JNull, outputFormat = None, outputTitle = None, currentStep = 0,
      browser = NoBrowser, logFile = None\<rparr>"

definition getStatus :: "agent \<Rightarrow> string" where
  "getStatus a =
     (if length (actionLog a) = 0 then ''no_actions''
      else
        (let lastAction = last (actionLog a) in
         if entry_type lastAction = ''complete'' then ''completed''
         else if entry_type lastAction = ''terminate'' then ''terminated''
         else if entry_type lastAction = ''error'' then ''error''
         else if currentStep a \<ge> maxSteps a then ''max_steps_reached''
         else ''unknown''))"

subsection \<open>Saving the results\<close>

text \<open>
  The character class \<open>[a-zA-Z0-9_-]\<close> of the title's regular expression, by code
  ranges as the expression reads them. \<open>toLowerCase\<close> runs after the replacement, when
  only the letters \<open>A\<close> to \<open>Z\<close> are left to change.
\<close>

definition in_range :: "char \<Rightarrow> char \<Rightarrow> char \<Rightarrow> bool" where
  "in_range lo hi c = ((of_char lo :: nat) \<le> of_char c \<and> (of_char c :: nat) \<le> of_char hi)"

definition title_char :: "char \<Rightarrow> bool" where
  "title_char c =
     (in_range CHR ''a'' CHR ''z'' c \<or> in_range CHR ''A'' CHR ''Z'' c \<or>
      in_range CHR ''0'' CHR ''9'' c \<or> c = CHR ''_'' \<or> c = CHR ''-'')"

definition toLowerCase :: "char \<Rightarrow> char" where
  "toLowerCase c =
     (if in_range CHR ''A'' CHR ''Z'' c then char_of ((of_char c :: nat) + 32) else c)"

definition safeTitle :: "string \<Rightarrow> string" where
  "safeTitle title =
     map toLowerCase (map (\<lambda>c. if title_char c then c else CHR ''_'') title)"

text \<open>\<open>a || b\<close> on optional strings, and \<open>a || 'default'\<close>.\<close>

definition or_str :: "string option \<Rightarrow> string option \<Rightarrow> string option" where
  "or_str a b = (if truthy_str a then a else b)"

definition or_default :: "string option \<Rightarrow> string \<Rightarrow> string" where
  "or_default a d = (case a of None \<Rightarrow> d | Some s \<Rightarrow> if s = [] then d else s)"

definition path_join :: "string \<Rightarrow> string \<Rightarrow> string" where
  "path_join dir file = dir @ ''/'' @ file"

text \<open>
  \<open>lastAction\<close> of \<open>saveExtractedData\<close> is \<open>actionLog.find(...)\<close>, and \<open>format\<close> and
  \<open>title\<close> are its two constants. The content written to the file is not modelled, its
  format and path are.
\<close>

definition lastAction :: "agent \<Rightarrow> log_entry option" where
  "lastAction a =
     find (\<lambda>e. truthy (entry_extracted_data e) \<or> truthy_str (entry_output_format e))
       (actionLog a)"

definition format :: "agent \<Rightarrow> string" where
  "format a =
     or_default
       (or_str (outputFormat a)
          (case lastAction a of None \<Rightarrow> None | Some e \<Rightarrow> entry_output_format e))
       ''json''"

definition title :: "agent \<Rightarrow> string" where
  "title a =
     or_default
       (or_str (outputTitle a)
          (case lastAction a of None \<Rightarrow> None | Some e \<Rightarrow> entry_output_title e))
       (''output_'' @ sessionId a)"

definition saveExtractedData :: "agent \<Rightarrow> string \<Rightarrow> saved_file list" where
  "saveExtractedData a outputDir =
     (if format a = ''markdown'' \<or> format a = ''md''
      then [\<lparr>file_format = ''markdown'',
             file_path = path_join outputDir (safeTitle (title a) @ ''_'' @ sessionId a @ ''.md'')\<rparr>]
      else [\<lparr>file_format = ''json'',
             file_path = path_join outputDir (safeTitle (title a) @ ''_'' @ sessionId a @ ''.json'')\<rparr>])"

definition saveResults :: "agent \<Rightarrow> agent \<times> results" where
  "saveResults a =
     (let results =
            \<lparr>r_sessionId = sessionId a, totalSteps = currentStep a, status = getStatus a,
             r_extractedData = extractedData a, outputFiles = [], r_actionLog = actionLog a\<rparr>;
          a' = a\<lparr>logFile := Some (path_join ''data/action-logs'' (sessionId a @ ''.json''), results)\<rparr>
      in if truthy (extractedData a)
         then (a', results\<lparr>outputFiles := saveExtractedData a ''data/output''\<rparr>)
         else (a', results))"

subsection \<open>The step loop\<close>

text \<open>
  What the collaborators of the agent do is the input of a run. Before the loop:
  \<open>initialize\<close> throws before the browser context is stored (\<open>LaunchFails\<close>), or
  something throws once \<open>this.browser\<close> is set (the rest of \<open>initialize\<close>, the cookie
  preload, the navigation, the highlighter: \<open>SetupFails\<close>), or the loop is reached. In
  iteration \<open>n\<close>: \<open>getPageState\<close> throws or returns the element table, the decision
  provider throws or returns a decision, printing and highlighting the action may throw
  (\<open>announce\<close>), the handler finds the page \<open>live\<close>, and the wait between actions may
  throw (\<open>pause\<close>). After the loop, \<open>browser.close()\<close> returns or rejects
  (\<open>closing\<close>). \<open>parseAction\<close> belongs to the action parser and is a parameter
  too. The URL and the goal reach the collaborators only, so they are part of what the
  world answers.
\<close>

datatype startup = LaunchFails string | SetupFails string | Ready

record step_world =
  pageState :: "element_map outcome"
  decision :: "action outcome"
  announce :: "string option"
  live :: page
  pause :: "string option"

record world =
  startup :: startup
  parseAction :: "action \<Rightarrow> element_map \<Rightarrow> action outcome"
  steps :: "nat \<Rightarrow> step_world"
  closing :: "string option"

text \<open>How one pass through the loop body ends, and how the loop ends.\<close>

datatype control = Normal | Break | Thrown string

text \<open>The assignments of the terminal branch before \<open>break\<close>.\<close>

definition capture :: "action \<Rightarrow> agent \<Rightarrow> agent" where
  "capture act a =
     (let a1 = (if truthy (extracted_data act) then a\<lparr>extractedData := extracted_data act\<rparr> else a);
          a2 = (if truthy_str (output_format act) then a1\<lparr>outputFormat := output_format act\<rparr> else a1)
      in if truthy_str (output_title act) then a2\<lparr>outputTitle := output_title act\<rparr> else a2)"

text \<open>
  The push of the log entry after an action ran: the entry is built from the counter, the
  action and the \<open>success\<close> and \<open>error\<close> of the outcome.
\<close>

definition logged :: "agent \<Rightarrow> action \<Rightarrow> exec_result \<Rightarrow> agent" where
  "logged a act res =
     a\<lparr>actionLog := actionLog a @ [ActionEntry (currentStep a) act (success res) (error res)]\<rparr>"

definition iteration :: "registry \<Rightarrow> world \<Rightarrow> agent \<Rightarrow> control \<times> agent" where
  "iteration actions w a0 =
     (let a = a0\<lparr>currentStep := currentStep a0 + 1\<rparr>;
          sw = steps w (currentStep a)
      in case pageState sw of
           Inl e \<Rightarrow> (Thrown e, a)
         | Inr elementMap \<Rightarrow>
        (case decision sw of
           Inl e \<Rightarrow> (Thrown e, a)
         | Inr rawAction \<Rightarrow>
        (case parseAction w rawAction elementMap of
           Inl e \<Rightarrow> (Thrown e, a)
         | Inr act \<Rightarrow>
        (case announce sw of
           Some e \<Rightarrow> (Thrown e, a)
         | None \<Rightarrow>
        (case execute actions (live sw) elementMap act of
           Inl e \<Rightarrow> (Thrown e, a)
         | Inr res \<Rightarrow>
             if isTerminal actions (action_type act) then (Break, capture act (logged a act res))
             else if waitBetweenActions a > 0 then
               (case pause sw of
                  Some e \<Rightarrow> (Thrown e, logged a act res)
                | None \<Rightarrow> (Normal, logged a act res))
             else (Normal, logged a act res))))))"

function loop :: "registry \<Rightarrow> world \<Rightarrow> agent \<Rightarrow> control \<times> agent" where
  "loop actions w a =
     (if currentStep a < maxSteps a then
        (case iteration actions w a of
           (Normal, a') \<Rightarrow> loop actions w a'
         | (Break, a') \<Rightarrow> (Break, a')
         | (Thrown e, a') \<Rightarrow> (Thrown e, a'))
      else (Normal, a))"
  by pat_completeness auto
termination
proof (relation "measure (\<lambda>(actions, w, a). maxSteps a - currentStep a)")
  show "wf (measure (\<lambda>(actions, w, a). maxSteps a - currentStep a))"
    by simp
next
  fix actions w a x1 x2
  assume lt: "currentStep a < maxSteps a" and it: "(x1, x2) = iteration actions w a"
  from it have "currentStep x2 = Suc (currentStep a) \<and> maxSteps x2 = maxSteps a"
    by (auto simp: iteration_def Let_def logged_def capture_def
        split: sum.splits option.splits if_splits)
  with lt show "((actions, w, x2), (actions, w, a))
      \<in> measure (\<lambda>(actions, w, a). maxSteps a - currentStep a)"
    by simp
qed

text \<open>
  The body of the \<open>try\<close> block of \<open>run\<close>, and what its \<open>catch\<close> leaves.
\<close>

definition attempt :: "registry \<Rightarrow> world \<Rightarrow> agent \<Rightarrow> control \<times> agent" where
  "attempt actions w a =
     (case startup w of
        LaunchFails e \<Rightarrow> (Thrown e, a)
      | SetupFails e \<Rightarrow> (Thrown e, a\<lparr>browser := BrowserOpen\<rparr>)
      | Ready \<Rightarrow> loop actions w (a\<lparr>browser := BrowserOpen\<rparr>))"

definition caught :: "control \<times> agent \<Rightarrow> agent" where
  "caught r =
     (case r of
        (Thrown e, a) \<Rightarrow> a\<lparr>actionLog := actionLog a @ [ErrorEntry (currentStep a) e]\<rparr>
      | (c, a) \<Rightarrow> a)"

text \<open>
  \<open>close\<close> awaits \<open>browser.close()\<close> when \<open>this.browser\<close> is set; when that
  rejects, \<open>close\<close> rejects with the agent as it is. \<open>run\<close> awaits \<open>close\<close> in its
  \<open>finally\<close> and calls \<open>saveResults\<close> after the \<open>try\<close> statement, so a fault of
  \<open>close\<close> leaves \<open>run\<close> before anything is saved: \<open>run\<close> returns the agent and the
  results (\<open>Inr\<close>), or the fault with the agent it leaves behind (\<open>Inl\<close>). The file
  writes of \<open>saveResults\<close> are taken to return.
\<close>

definition close :: "world \<Rightarrow> agent \<Rightarrow> (string \<times> agent) + agent" where
  "close w a =
     (case browser a of
        NoBrowser \<Rightarrow> Inr a
      | _ \<Rightarrow> (case closing w of Some e \<Rightarrow> Inl (e, a) | None \<Rightarrow> Inr (a\<lparr>browser := BrowserClosed\<rparr>)))"

definition run :: "registry \<Rightarrow> world \<Rightarrow> agent \<Rightarrow> (string \<times> agent) + (agent \<times> results)" where
  "run actions w a =
     (case close w (caught (attempt actions w a)) of
        Inl fault \<Rightarrow> Inl fault
      | Inr a' \<Rightarrow> Inr (saveResults a'))"



section \<open>Sample collaborators\<close>

text \<open>
  Concrete inputs on which the properties below are exercised: an action with no
  parameters, a page on which nothing is found, a page on which only the
  \<open>aria-label\<close> query of a search box finds an element, a plugin that does not
  override \<open>execute\<close>, a plugins directory (one file does not load, one exports the base
  class), and a world that plays a script of decisions with a parser that accepts them
  as they are.
\<close>

definition plain_action :: "string \<Rightarrow> action" where
  "plain_action ty =
     \<lparr>action_type = ty, reasoning = ''next'', element_id = None, reason = JUndefined,
      extracted_data = JUndefined, output_format = None, output_title = None, errors = [],
      step = None\<rparr>"

definition blank_page :: page where
  "blank_page =
     \<lparr>locator = (\<lambda>sel. Inl ''Timeout exceeded''), query = (\<lambda>sel. Inr None),
      query_all = (\<lambda>sel. Inr []), click = (\<lambda>h. None), hover = (\<lambda>h. None)\<rparr>"

definition aria_only_page :: page where
  \<open>aria_only_page =
     \<lparr>locator = (\<lambda>sel. Inl ''Timeout exceeded''),
      query = (\<lambda>sel. if sel = ''[aria-label="Search"]'' then Inr (Some (Handle 7)) else Inr None),
      query_all = (\<lambda>sel. Inr []), click = (\<lambda>h. None), hover = (\<lambda>h. None)\<rparr>\<close>

definition e1_info :: element_info where
  "e1_info =
     \<lparr>el_tag = Some ''input'', el_xpath = Some ''//form/input[1]'', el_name = Some ''q'',
      el_aria_label = Some ''Search'', el_type = Some ''text''\<rparr>"

definition UnfinishedAction :: action_class where
  "UnfinishedAction =
     \<lparr>static_type = ''noop'', static_requiresElement = False, static_isCoordinate = False,
      static_isTerminal = False, static_description = ''Base action'',
      handler_execute = BaseAction_execute ''noop''\<rparr>"

definition plugins :: "plugin_file list" where
  "plugins =
     [Exports ClickAction, Exports TerminateAction, Exports CompleteAction,
      Exports HoverAction, Broken ''Unexpected token'', Exports BaseAction,
      Exports UnfinishedAction]"

definition scripted :: "action list \<Rightarrow> world" where
  "scripted script =
     \<lparr>startup = Ready,
      parseAction = (\<lambda>raw elementMap. Inr raw),
      steps = (\<lambda>n. \<lparr>pageState = Inr Map.empty,
                      decision = (if 0 < n \<and> n \<le> length script then Inr (script ! (n - 1))
                                  else Inl ''no decision''),
                      announce = None, live = blank_page, pause = None\<rparr>),
      closing = None\<rparr>"

text \<open>
  Further samples: a provider whose every call fails and a world whose decisions come from
  the adapter over that provider with two retries; a world in which the script ends on
  \<open>terminate\<close> and \<open>browser.close()\<close> rejects; a plugin registered by hand; an agent
  after a run in which the second action named a format and a title and the third, a
  \<open>complete\<close> with a payload, named none.
\<close>

definition always_failing :: "string \<Rightarrow> api_call" where
  "always_failing msg = (\<lambda>n. Inl msg)"

definition provider_down :: world where
  "provider_down =
     \<lparr>startup = Ready,
      parseAction = (\<lambda>raw elementMap. Inr raw),
      steps = (\<lambda>n. \<lparr>pageState = Inr Map.empty,
                      decision = generateAction (Inr ''prompt'') (Some (bounded_retry 2))
                                   (always_failing ''quota exceeded''),
                      announce = None, live = blank_page, pause = None\<rparr>),
      closing = None\<rparr>"

definition close_rejecting :: world where
  "close_rejecting =
     (scripted [plain_action ''hover'', plain_action ''terminate''])\<lparr>closing :=
        Some ''Target page, context or browser has been closed''\<rparr>"

definition WaitAction :: action_class where
  "WaitAction =
     \<lparr>static_type = ''wait'', static_requiresElement = False, static_isCoordinate = False,
      static_isTerminal = False, static_description = ''Wait'',
      handler_execute = BaseAction_execute ''wait''\<rparr>"




section \<open>Properties\<close>

declare loop.simps [simp del]

subsection \<open>The loop, one pass at a time\<close>


lemma loop_continues:
  assumes "currentStep a < maxSteps a" and "iteration actions w a = (Normal, a')"
  shows "loop actions w a = loop actions w a'"
  using assms by (subst loop.simps) simp

lemma loop_breaks:
  assumes "currentStep a < maxSteps a" and "iteration actions w a = (Break, a')"
  shows "loop actions w a = (Break, a')"
  using assms by (subst loop.simps) simp

lemma loop_throws:
  assumes "currentStep a < maxSteps a" and "iteration actions w a = (Thrown e, a')"
  shows "loop actions w a = (Thrown e, a')"
  using assms by (subst loop.simps) simp

lemma loop_exhausted:
  assumes "\<not> currentStep a < maxSteps a"
  shows "loop actions w a = (Normal, a)"
  using assms by (subst loop.simps) simp

lemma iteration_acts:
  assumes "pageState (steps w (Suc (currentStep a))) = Inr em"
    and "decision (steps w (Suc (currentStep a))) = Inr raw"
    and "parseAction w raw em = Inr act"
    and "announce (steps w (Suc (currentStep a))) = None"
    and "execute actions (live (steps w (Suc (currentStep a)))) em act = Inr res"
  shows "iteration actions w a =
     (if isTerminal actions (action_type act)
      then (Break, capture act (logged (a\<lparr>currentStep := Suc (currentStep a)\<rparr>) act res))
      else if waitBetweenActions a > 0 then
        (case pause (steps w (Suc (currentStep a))) of
           Some e \<Rightarrow> (Thrown e, logged (a\<lparr>currentStep := Suc (currentStep a)\<rparr>) act res)
         | None \<Rightarrow> (Normal, logged (a\<lparr>currentStep := Suc (currentStep a)\<rparr>) act res))
      else (Normal, logged (a\<lparr>currentStep := Suc (currentStep a)\<rparr>) act res))"
  using assms by (simp add: iteration_def Let_def)

text \<open>
  The \<open>step\<close> of a log entry is the counter, unless the action that is spread into the
  entry has a \<open>step\<close> of its own.
\<close>

lemma entry_step_spread:
  "entry_step (ActionEntry 3 (plain_action ''hover'') True None) = JNum 3 \<and>
   entry_step (ActionEntry 3 ((plain_action ''hover'')\<lparr>step := Some (JStr ''last'')\<rparr>) True None) =
     JStr ''last''"
  by (simp add: plain_action_def)

lemma plugins_registry:
  "loadPlugins plugins [] =
     [(''click'', ClickAction), (''terminate'', TerminateAction), (''complete'', CompleteAction),
      (''hover'', HoverAction), (''noop'', UnfinishedAction)]"
  by (simp add: loadPlugins_def plugins_def register_def ClickAction_def TerminateAction_def
      CompleteAction_def HoverAction_def BaseAction_def UnfinishedAction_def)

subsection \<open>The executor boundary\<close>

lemma execute_returns: "\<exists>res. execute actions pg em act = Inr res"
  by (simp add: execute_def try_catch_def split: option.splits sum.splits)

lemma execute_unknown:
  "get actions (action_type act) = None \<Longrightarrow>
   execute actions pg em act = Inr (failure (unknown_action actions (action_type act)))"
  by (simp add: execute_def)

lemma execute_throwing:
  "get actions (action_type act) = Some cls \<Longrightarrow> handler_execute cls pg em act = Inl msg \<Longrightarrow>
   execute actions pg em act = Inr (failure msg)"
  by (simp add: execute_def try_catch_def)

lemma execute_returning:
  "get actions (action_type act) = Some cls \<Longrightarrow> handler_execute cls pg em act = Inr res \<Longrightarrow>
   execute actions pg em act = Inr res"
  by (simp add: execute_def try_catch_def)

text \<open>
  C3. \<open>ActionExecutor.execute\<close> always returns a structured outcome: for a kind that is
  not registered, a failure whose error names the kind and lists the registered kinds;
  when the selected handler throws, a failure carrying the thrown message. In the step
  loop, a step whose handler throws (kind not terminal, no other fault in the step) is
  logged with \<open>success: false\<close> and the message, and the loop goes on from the next
  step.
\<close>

theorem execute_never_throws:
  "(\<exists>res. execute actions pg em act = Inr res) \<and>
   (get actions (action_type act) = None \<longrightarrow>
      execute actions pg em act =
        Inr \<lparr>success = False,
             error = Some (''Unknown action type: '' @ action_type act @ ''. Available: '' @
                           join '', '' (getTypes actions)),
             data = JUndefined, message = None\<rparr>) \<and>
   (get actions (action_type act) = Some cls \<and> handler_execute cls pg em act = Inl msg \<longrightarrow>
      execute actions pg em act =
        Inr \<lparr>success = False, error = Some msg, data = JUndefined, message = None\<rparr>) \<and>
   (currentStep a < maxSteps a \<and>
    pageState (steps w (Suc (currentStep a))) = Inr em \<and>
    decision (steps w (Suc (currentStep a))) = Inr raw \<and>
    parseAction w raw em = Inr act \<and>
    announce (steps w (Suc (currentStep a))) = None \<and>
    get actions (action_type act) = Some cls \<and>
    handler_execute cls (live (steps w (Suc (currentStep a)))) em act = Inl msg \<and>
    \<not> static_isTerminal cls \<and>
    (waitBetweenActions a = 0 \<or> pause (steps w (Suc (currentStep a))) = None) \<longrightarrow>
      loop actions w a =
        loop actions w
          (a\<lparr>currentStep := Suc (currentStep a),
             actionLog := actionLog a @ [ActionEntry (Suc (currentStep a)) act False (Some msg)]\<rparr>))"
proof (intro conjI impI)
  show "\<exists>res. execute actions pg em act = Inr res"
    by (rule execute_returns)
next
  assume "get actions (action_type act) = None"
  then show "execute actions pg em act =
        Inr \<lparr>success = False,
             error = Some (''Unknown action type: '' @ action_type act @ ''. Available: '' @
                           join '', '' (getTypes actions)),
             data = JUndefined, message = None\<rparr>"
    by (simp add: execute_unknown failure_def unknown_action_def)
next
  assume "get actions (action_type act) = Some cls \<and> handler_execute cls pg em act = Inl msg"
  then show "execute actions pg em act =
        Inr \<lparr>success = False, error = Some msg, data = JUndefined, message = None\<rparr>"
    by (simp add: execute_throwing failure_def)
next
  let ?sw = "steps w (Suc (currentStep a))"
  assume h: "currentStep a < maxSteps a \<and>
    pageState ?sw = Inr em \<and> decision ?sw = Inr raw \<and> parseAction w raw em = Inr act \<and>
    announce ?sw = None \<and> get actions (action_type act) = Some cls \<and>
    handler_execute cls (live ?sw) em act = Inl msg \<and> \<not> static_isTerminal cls \<and>
    (waitBetweenActions a = 0 \<or> pause ?sw = None)"
  then have ex: "execute actions (live ?sw) em act = Inr (failure msg)"
    by (simp add: execute_throwing)
  from h have nt: "\<not> isTerminal actions (action_type act)"
    by (simp add: isTerminal_def)
  from h have "iteration actions w a =
      (Normal, logged (a\<lparr>currentStep := Suc (currentStep a)\<rparr>) act (failure msg))"
    using iteration_acts [of w a em raw act actions "failure msg"] ex nt
    by (auto split: option.splits)
  moreover have "logged (a\<lparr>currentStep := Suc (currentStep a)\<rparr>) act (failure msg) =
      a\<lparr>currentStep := Suc (currentStep a),
        actionLog := actionLog a @ [ActionEntry (Suc (currentStep a)) act False (Some msg)]\<rparr>"
    by (simp add: logged_def failure_def)
  ultimately show "loop actions w a =
        loop actions w
          (a\<lparr>currentStep := Suc (currentStep a),
             actionLog := actionLog a @ [ActionEntry (Suc (currentStep a)) act False (Some msg)]\<rparr>)"
    using h loop_continues by simp
qed

theorem execute_never_throws_witness:
  "execute (loadPlugins plugins []) blank_page Map.empty (plain_action ''fly'') =
     Inr \<lparr>success = False,
          error = Some ''Unknown action type: fly. Available: click, terminate, complete, hover, noop'',
          data = JUndefined, message = None\<rparr> \<and>
   execute (loadPlugins plugins []) blank_page Map.empty (plain_action ''noop'') =
     Inr \<lparr>success = False, error = Some ''execute() not implemented for noop'',
          data = JUndefined, message = None\<rparr> \<and>
   loop (loadPlugins plugins []) (scripted [plain_action ''noop'', plain_action ''terminate''])
       (new_Agent 5 0 ''s1'') =
     loop (loadPlugins plugins []) (scripted [plain_action ''noop'', plain_action ''terminate''])
       ((new_Agent 5 0 ''s1'')\<lparr>currentStep := 1,
          actionLog := [ActionEntry 1 (plain_action ''noop'') False
                          (Some ''execute() not implemented for noop'')]\<rparr>)"
proof (intro conjI)
  show "execute (loadPlugins plugins []) blank_page Map.empty (plain_action ''fly'') =
     Inr \<lparr>success = False,
          error = Some ''Unknown action type: fly. Available: click, terminate, complete, hover, noop'',
          data = JUndefined, message = None\<rparr>"
    using execute_never_throws [of "loadPlugins plugins []" blank_page Map.empty
        "plain_action ''fly''"]
    by (simp add: plugins_registry get_def getTypes_def plain_action_def)
next
  show "execute (loadPlugins plugins []) blank_page Map.empty (plain_action ''noop'') =
     Inr \<lparr>success = False, error = Some ''execute() not implemented for noop'',
          data = JUndefined, message = None\<rparr>"
    using execute_never_throws [of "loadPlugins plugins []" blank_page Map.empty
        "plain_action ''noop''" UnfinishedAction "''execute() not implemented for noop''"]
    by (simp add: plugins_registry get_def plain_action_def UnfinishedAction_def
        BaseAction_execute_def)
next
  show "loop (loadPlugins plugins []) (scripted [plain_action ''noop'', plain_action ''terminate''])
       (new_Agent 5 0 ''s1'') =
     loop (loadPlugins plugins []) (scripted [plain_action ''noop'', plain_action ''terminate''])
       ((new_Agent 5 0 ''s1'')\<lparr>currentStep := 1,
          actionLog := [ActionEntry 1 (plain_action ''noop'') False
                          (Some ''execute() not implemented for noop'')]\<rparr>)"
    using execute_never_throws [of "loadPlugins plugins []" blank_page Map.empty
        "plain_action ''noop''" UnfinishedAction "''execute() not implemented for noop''"
        "new_Agent 5 0 ''s1''" "scripted [plain_action ''noop'', plain_action ''terminate'']"
        "plain_action ''noop''"]
    by (simp add: plugins_registry get_def plain_action_def UnfinishedAction_def
        BaseAction_execute_def new_Agent_def scripted_def blank_page_def)
qed

subsection \<open>Element resolution\<close>

text \<open>
  The copy with attribute fallbacks, on an identifier of the element table, in terms of
  what the page answers: the structural locator first, then \<open>[name="..."]\<close>, then
  \<open>[aria-label="..."]\<close>, then \<open>input[type="..."]\<close> for an \<open>input\<close> tag; the first
  query that finds an element decides, and when none does the resolution fails.
\<close>

lemma getElement_calls:
  assumes \<open>eid \<noteq> []\<close> and \<open>em eid = Some info\<close>
  shows
    \<open>getElement pg em (Some eid) =
       (let e0 = (case el_xpath info of
                    None \<Rightarrow> None
                  | Some xp \<Rightarrow>
                      if xp = [] then None
                      else (case locator pg (''xpath='' @ xp) of Inl e \<Rightarrow> None | Inr h \<Rightarrow> h))
        in case (case el_name info of
                   None \<Rightarrow> Inr e0
                 | Some n \<Rightarrow>
                     if e0 = None \<and> n \<noteq> [] then query pg (''[name="'' @ n @ ''"]'')
                     else Inr e0) of
             Inl e \<Rightarrow> Inl e
           | Inr e1 \<Rightarrow>
          (case (case el_aria_label info of
                   None \<Rightarrow> Inr e1
                 | Some l \<Rightarrow>
                     if e1 = None \<and> l \<noteq> [] then query pg (''[aria-label="'' @ l @ ''"]'')
                     else Inr e1) of
             Inl e \<Rightarrow> Inl e
           | Inr e2 \<Rightarrow>
          (case (if el_tag info = Some ''input''
                 then (case el_type info of
                         None \<Rightarrow> Inr e2
                       | Some t \<Rightarrow>
                           if e2 = None \<and> t \<noteq> [] then query pg (''input[type="'' @ t @ ''"]'')
                           else Inr e2)
                 else Inr e2) of
             Inl e \<Rightarrow> Inl e
           | Inr None \<Rightarrow> Inl (''Could not locate element: '' @ eid)
           | Inr (Some h) \<Rightarrow> Inr h)))\<close>
  unfolding getElement_def lookup_def by_xpath_def by_name_def by_aria_label_def
    by_input_type_def fallback_def name_selector_def aria_selector_def type_selector_def
    not_found_def Let_def
  using assms by simp

lemma getElement_fallback_order:
  assumes \<open>eid \<noteq> []\<close> and \<open>em eid = Some info\<close>
  shows
    \<open>(el_xpath info = Some xp \<and> xp \<noteq> [] \<and> locator pg (''xpath='' @ xp) = Inr (Some h) \<longrightarrow>
        getElement pg em (Some eid) = Inr h) \<and>
     ((\<forall>x h'. el_xpath info = Some x \<and> x \<noteq> [] \<longrightarrow> locator pg (''xpath='' @ x) \<noteq> Inr (Some h')) \<and>
      el_name info = Some n \<and> n \<noteq> [] \<and> query pg (''[name="'' @ n @ ''"]'') = Inr (Some h) \<longrightarrow>
        getElement pg em (Some eid) = Inr h) \<and>
     ((\<forall>x h'. el_xpath info = Some x \<and> x \<noteq> [] \<longrightarrow> locator pg (''xpath='' @ x) \<noteq> Inr (Some h')) \<and>
      (\<forall>x. el_name info = Some x \<and> x \<noteq> [] \<longrightarrow> query pg (''[name="'' @ x @ ''"]'') = Inr None) \<and>
      el_aria_label info = Some l \<and> l \<noteq> [] \<and>
      query pg (''[aria-label="'' @ l @ ''"]'') = Inr (Some h) \<longrightarrow>
        getElement pg em (Some eid) = Inr h) \<and>
     ((\<forall>x h'. el_xpath info = Some x \<and> x \<noteq> [] \<longrightarrow> locator pg (''xpath='' @ x) \<noteq> Inr (Some h')) \<and>
      (\<forall>x. el_name info = Some x \<and> x \<noteq> [] \<longrightarrow> query pg (''[name="'' @ x @ ''"]'') = Inr None) \<and>
      (\<forall>x. el_aria_label info = Some x \<and> x \<noteq> [] \<longrightarrow>
         query pg (''[aria-label="'' @ x @ ''"]'') = Inr None) \<and>
      el_tag info = Some ''input'' \<and> el_type info = Some t \<and> t \<noteq> [] \<and>
      query pg (''input[type="'' @ t @ ''"]'') = Inr (Some h) \<longrightarrow>
        getElement pg em (Some eid) = Inr h) \<and>
     ((\<forall>x h'. el_xpath info = Some x \<and> x \<noteq> [] \<longrightarrow> locator pg (''xpath='' @ x) \<noteq> Inr (Some h')) \<and>
      (\<forall>x. el_name info = Some x \<and> x \<noteq> [] \<longrightarrow> query pg (''[name="'' @ x @ ''"]'') = Inr None) \<and>
      (\<forall>x. el_aria_label info = Some x \<and> x \<noteq> [] \<longrightarrow>
         query pg (''[aria-label="'' @ x @ ''"]'') = Inr None) \<and>
      (\<forall>x. el_tag info = Some ''input'' \<and> el_type info = Some x \<and> x \<noteq> [] \<longrightarrow>
         query pg (''input[type="'' @ x @ ''"]'') = Inr None) \<longrightarrow>
        getElement pg em (Some eid) = Inl (''Could not locate element: '' @ eid))\<close>
  unfolding getElement_calls [of eid em info, OF assms] Let_def
  by (cases "el_xpath info"; cases "el_name info"; cases "el_aria_label info";
      cases "el_type info")
    (auto split: sum.splits option.splits)

text \<open>
  The other copy, in the same terms: the \<open>data-uuid\<close> query first, then the first
  element of the structural locator, and nothing else.
\<close>

lemma getElement_uuid_order:
  assumes \<open>eid \<noteq> []\<close> and \<open>em eid = Some info\<close>
  shows
    \<open>(query pg (''[data-uuid="'' @ eid @ ''"]'') = Inr (Some h) \<longrightarrow>
        getElement_uuid pg em (Some eid) = Inr h) \<and>
     (query pg (''[data-uuid="'' @ eid @ ''"]'') = Inr None \<and> el_xpath info = Some xp \<and> xp \<noteq> [] \<and>
      query_all pg ('':xpath('' @ xp @ '')'') = Inr (h # hs) \<longrightarrow>
        getElement_uuid pg em (Some eid) = Inr h) \<and>
     (query pg (''[data-uuid="'' @ eid @ ''"]'') = Inr None \<and>
      (\<forall>x h' hs'. el_xpath info = Some x \<and> x \<noteq> [] \<longrightarrow>
         query_all pg ('':xpath('' @ x @ '')'') \<noteq> Inr (h' # hs')) \<longrightarrow>
        getElement_uuid pg em (Some eid) = Inl (''Could not locate element: '' @ eid))\<close>
proof -
  have lk: "lookup em eid = Some info"
    using assms by (simp add: lookup_def)
  show ?thesis
    using assms(1)
    by (cases "el_xpath info")
      (auto simp: getElement_uuid_def lk first_by_xpath_def uuid_selector_def not_found_def
        split: sum.splits option.splits list.splits)
qed

text \<open>
  An identifier that is no own property of the element table but a property of
  \<open>Object.prototype\<close> passes the test of the table: with an empty table,
  \<open>constructor\<close> is resolved by the \<open>name\<close> of the function \<open>Object\<close> on a page
  that has an element of that name, and fails like an element that no query finds on a
  page that has none; so does \<open>valueOf\<close>, and \<open>__proto__\<close>, which has no name, fails
  in that way on both pages. Any other identifier that is not in the table fails at the
  table.
\<close>

lemma getElement_inherited_key:
  \<open>getElement
     (blank_page\<lparr>query := (\<lambda>sel. if sel = ''[name="Object"]'' then Inr (Some (Handle 1))
                                  else Inr None)\<rparr>)
     Map.empty (Some ''constructor'') = Inr (Handle 1) \<and>
   getElement blank_page Map.empty (Some ''constructor'') =
     Inl ''Could not locate element: constructor'' \<and>
   getElement
     (blank_page\<lparr>query := (\<lambda>sel. if sel = ''[name="valueOf"]'' then Inr (Some (Handle 2))
                                  else Inr None)\<rparr>)
     Map.empty (Some ''valueOf'') = Inr (Handle 2) \<and>
   getElement
     (blank_page\<lparr>query := (\<lambda>sel. if sel = ''[name="Object"]'' then Inr (Some (Handle 1))
                                  else Inr None)\<rparr>)
     Map.empty (Some ''__proto__'') = Inl ''Could not locate element: __proto__'' \<and>
   getElement_uuid blank_page Map.empty (Some ''constructor'') =
     Inl ''Could not locate element: constructor'' \<and>
   getElement blank_page Map.empty (Some ''e1'') = Inl ''Element e1 not found in map'' \<and>
   getElement_uuid blank_page Map.empty (Some ''e1'') = Inl ''Element e1 not found in map''\<close>
  by (simp add: getElement_def getElement_uuid_def lookup_def inherited_def function_named_def
      prototype_methods_def by_xpath_def by_name_def by_aria_label_def by_input_type_def
      first_by_xpath_def uuid_selector_def fallback_def name_selector_def blank_page_def
      not_found_def)

text \<open>
  C4. Element resolution tries the stored structural locator, the \<open>name\<close> attribute, the
  \<open>aria-label\<close> attribute and the input \<open>type\<close> in order, so an element that the page
  finds only by \<open>aria-label\<close> is resolved. This holds of the copy of \<open>getElement\<close> with
  attribute fallbacks and fails of the other copy: on a page where only the
  \<open>aria-label\<close> query finds the element \<open>e1\<close> of the element table, the first resolves
  it and the second, which tries \<open>data-uuid\<close> and the structural locator only, fails with
  \<open>Could not locate element: e1\<close>.
\<close>

theorem getElement_uuid_misses_aria_label:
  "getElement aria_only_page [''e1'' \<mapsto> e1_info] (Some ''e1'') = Inr (Handle 7) \<and>
   getElement_uuid aria_only_page [''e1'' \<mapsto> e1_info] (Some ''e1'') =
     Inl ''Could not locate element: e1''"
  by (simp add: getElement_uuid_def getElement_def lookup_def first_by_xpath_def uuid_selector_def
      by_xpath_def by_name_def by_aria_label_def by_input_type_def fallback_def name_selector_def
      aria_selector_def type_selector_def not_found_def aria_only_page_def e1_info_def)


subsection \<open>Invariants of the loop\<close>

lemma capture_fields:
  "actionLog (capture act a) = actionLog a" "currentStep (capture act a) = currentStep a"
  "maxSteps (capture act a) = maxSteps a" "browser (capture act a) = browser a"
  "sessionId (capture act a) = sessionId a" "logFile (capture act a) = logFile a"
  "waitBetweenActions (capture act a) = waitBetweenActions a"
  by (simp_all add: capture_def Let_def)

lemma iteration_result:
  assumes "iteration actions w a = (c, a')"
  shows "(\<exists>e. c = Thrown e \<and> a' = a\<lparr>currentStep := Suc (currentStep a)\<rparr>) \<or>
     (\<exists>em act res.
        execute actions (live (steps w (Suc (currentStep a)))) em act = Inr res \<and>
        (if isTerminal actions (action_type act)
         then c = Break \<and> a' = capture act (logged (a\<lparr>currentStep := Suc (currentStep a)\<rparr>) act res)
         else c \<noteq> Break \<and> a' = logged (a\<lparr>currentStep := Suc (currentStep a)\<rparr>) act res))"
  using assms
  by (auto simp: iteration_def Let_def split: sum.splits option.splits if_splits)

lemma loop_frame:
  "loop actions w a = (c, a') \<Longrightarrow>
     maxSteps a' = maxSteps a \<and> sessionId a' = sessionId a \<and> browser a' = browser a \<and>
     logFile a' = logFile a \<and> waitBetweenActions a' = waitBetweenActions a \<and>
     currentStep a \<le> currentStep a' \<and> (\<exists>ys. actionLog a' = actionLog a @ ys)"
proof (induction actions w a arbitrary: c a' rule: loop.induct)
  case (1 actions w a)
  show ?case
  proof (cases "currentStep a < maxSteps a")
    case False
    with "1.prems" show ?thesis
      by (simp add: loop_exhausted)
  next
    case True
    obtain x y where it: "iteration actions w a = (x, y)"
      by (cases "iteration actions w a")
    from iteration_result [OF it]
    have fr: "maxSteps y = maxSteps a \<and> sessionId y = sessionId a \<and> browser y = browser a \<and>
        logFile y = logFile a \<and> waitBetweenActions y = waitBetweenActions a \<and>
        currentStep a \<le> currentStep y \<and> (\<exists>ys. actionLog y = actionLog a @ ys)"
      by (auto simp: capture_fields logged_def split: if_splits)
    show ?thesis
    proof (cases x)
      case Normal
      with True it "1.prems" have "loop actions w y = (c, a')"
        by (simp add: loop_continues)
      with "1.IH" [OF True it [symmetric] Normal] fr show ?thesis
        by auto
    next
      case Break
      with True it "1.prems" have "a' = y"
        by (simp add: loop_breaks)
      with fr show ?thesis by simp
    next
      case (Thrown e)
      with True it "1.prems" have "a' = y"
        by (simp add: loop_throws)
      with fr show ?thesis by simp
    qed
  qed
qed

lemma loop_normal:
  "loop actions w a = (Normal, a') \<Longrightarrow> maxSteps a' \<le> currentStep a'"
proof (induction actions w a arbitrary: a' rule: loop.induct)
  case (1 actions w a)
  show ?case
  proof (cases "currentStep a < maxSteps a")
    case False
    with "1.prems" show ?thesis
      by (simp add: loop_exhausted)
  next
    case True
    obtain x y where it: "iteration actions w a = (x, y)"
      by (cases "iteration actions w a")
    show ?thesis
    proof (cases x)
      case Normal
      with True it "1.prems" have "loop actions w y = (Normal, a')"
        by (simp add: loop_continues)
      with "1.IH" [OF True it [symmetric] Normal] show ?thesis
        by simp
    next
      case Break
      with True it "1.prems" show ?thesis
        by (simp add: loop_breaks)
    next
      case (Thrown e)
      with True it "1.prems" show ?thesis
        by (simp add: loop_throws)
    qed
  qed
qed

lemma loop_break:
  "loop actions w a = (Break, a') \<Longrightarrow>
     \<exists>a0 pg em act res.
       execute actions pg em act = Inr res \<and> isTerminal actions (action_type act) \<and>
       a' = capture act (logged a0 act res)"
proof (induction actions w a arbitrary: a' rule: loop.induct)
  case (1 actions w a)
  show ?case
  proof (cases "currentStep a < maxSteps a")
    case False
    with "1.prems" show ?thesis
      by (simp add: loop_exhausted)
  next
    case True
    obtain x y where it: "iteration actions w a = (x, y)"
      by (cases "iteration actions w a")
    show ?thesis
    proof (cases x)
      case Normal
      with True it "1.prems" have "loop actions w y = (Break, a')"
        by (simp add: loop_continues)
      with "1.IH" [OF True it [symmetric] Normal] show ?thesis
        by simp
    next
      case Break
      with True it "1.prems" have "a' = y"
        by (simp add: loop_breaks)
      with iteration_result [OF it] Break show ?thesis
        by (auto split: if_splits) blast
    next
      case (Thrown e)
      with True it "1.prems" show ?thesis
        by (simp add: loop_throws)
    qed
  qed
qed

lemmas sample_defs = plugins_registry plain_action_def scripted_def blank_page_def new_Agent_def
  ClickAction_def TerminateAction_def CompleteAction_def HoverAction_def UnfinishedAction_def

lemmas step_defs = iteration_def execute_def get_def isTerminal_def try_catch_def logged_def
  capture_def failure_def ok_result_def or_else_def
  TerminateAction_execute_def CompleteAction_execute_def HoverAction_execute_def
  ClickAction_execute_def BaseAction_execute_def on_element_def getElement_def


lemma close_fields:
  assumes "close w a = Inr a'"
  shows "actionLog a' = actionLog a" "currentStep a' = currentStep a"
    "maxSteps a' = maxSteps a" "sessionId a' = sessionId a"
    "extractedData a' = extractedData a" "getStatus a' = getStatus a"
    "logFile a' = logFile a"
    "browser a' = (case browser a of NoBrowser \<Rightarrow> NoBrowser | _ \<Rightarrow> BrowserClosed)"
  using assms
  by (auto simp: close_def getStatus_def split: browser_state.splits option.splits)

lemma close_returns:
  assumes "closing w = None \<or> browser a = NoBrowser"
  shows "\<exists>a'. close w a = Inr a'"
  using assms by (auto simp: close_def split: browser_state.splits)

lemma close_rejects:
  "close w a = Inl (e, st) \<longleftrightarrow> browser a \<noteq> NoBrowser \<and> closing w = Some e \<and> st = a"
  by (auto simp: close_def split: browser_state.splits option.splits)

lemma caught_fields:
  "currentStep (caught (c, a)) = currentStep a" "maxSteps (caught (c, a)) = maxSteps a"
  "sessionId (caught (c, a)) = sessionId a" "browser (caught (c, a)) = browser a"
  "logFile (caught (c, a)) = logFile a"
  "actionLog (caught (c, a)) =
     actionLog a @ (case c of Thrown e \<Rightarrow> [ErrorEntry (currentStep a) e] | _ \<Rightarrow> [])"
  by (simp_all add: caught_def split: control.splits)

lemma run_returns:
  assumes "closing w = None \<or> (\<exists>e. startup w = LaunchFails e \<and> browser a = NoBrowser)"
  shows "\<exists>a' res. run actions w a = Inr (a', res)"
proof -
  from assms have "closing w = None \<or> browser (caught (attempt actions w a)) = NoBrowser"
    by (cases "attempt actions w a") (auto simp: attempt_def caught_fields)
  from close_returns [OF this] obtain st where "close w (caught (attempt actions w a)) = Inr st"
    by blast
  then show ?thesis
    by (cases "saveResults st") (simp add: run_def)
qed

lemma scripted_runs: "\<exists>a' res. run actions (scripted script) a = Inr (a', res)"
  by (rule run_returns) (simp add: scripted_def)

lemma run_rejects:
  "run actions w a = Inl (e, st) \<longleftrightarrow>
     browser (snd (attempt actions w a)) \<noteq> NoBrowser \<and> closing w = Some e \<and>
     st = caught (attempt actions w a)"
proof -
  obtain c a0 where at: "attempt actions w a = (c, a0)"
    by (cases "attempt actions w a")
  have "run actions w a = Inl (e, st) \<longleftrightarrow> close w (caught (c, a0)) = Inl (e, st)"
    by (cases "close w (caught (c, a0))") (simp_all add: run_def at)
  then show ?thesis
    by (simp add: close_rejects at caught_fields)
qed

lemma run_fields:
  assumes "run actions w a = Inr (a', res)"
  shows "actionLog a' = actionLog (caught (attempt actions w a))"
    "r_actionLog res = actionLog (caught (attempt actions w a))"
    "totalSteps res = currentStep (caught (attempt actions w a))"
    "currentStep a' = currentStep (caught (attempt actions w a))"
    "maxSteps a' = maxSteps (caught (attempt actions w a))"
    "status res = getStatus (caught (attempt actions w a))"
    "browser a' =
       (case browser (caught (attempt actions w a)) of NoBrowser \<Rightarrow> NoBrowser
        | _ \<Rightarrow> BrowserClosed)"
    "logFile a' =
       Some (path_join ''data/action-logs'' (sessionId (caught (attempt actions w a)) @ ''.json''),
             res\<lparr>outputFiles := []\<rparr>)"
proof -
  from assms obtain st where c: "close w (caught (attempt actions w a)) = Inr st"
    and s: "saveResults st = (a', res)"
    by (auto simp: run_def split: sum.splits)
  note f = close_fields [OF c]
  from s have a': "a' = st\<lparr>logFile := Some (path_join ''data/action-logs'' (sessionId st @ ''.json''),
        res\<lparr>outputFiles := []\<rparr>)\<rparr>"
    and res: "res\<lparr>outputFiles := []\<rparr> =
      \<lparr>r_sessionId = sessionId st, totalSteps = currentStep st, status = getStatus st,
       r_extractedData = extractedData st, outputFiles = [], r_actionLog = actionLog st\<rparr>"
    by (auto simp: saveResults_def Let_def split: if_splits)
  from arg_cong [OF res, of r_actionLog] arg_cong [OF res, of totalSteps]
    arg_cong [OF res, of status]
  have r: "r_actionLog res = actionLog st" "totalSteps res = currentStep st"
    "status res = getStatus st"
    by simp_all
  show "actionLog a' = actionLog (caught (attempt actions w a))"
    "r_actionLog res = actionLog (caught (attempt actions w a))"
    "totalSteps res = currentStep (caught (attempt actions w a))"
    "currentStep a' = currentStep (caught (attempt actions w a))"
    "maxSteps a' = maxSteps (caught (attempt actions w a))"
    "status res = getStatus (caught (attempt actions w a))"
    "browser a' =
       (case browser (caught (attempt actions w a)) of NoBrowser \<Rightarrow> NoBrowser
        | _ \<Rightarrow> BrowserClosed)"
    "logFile a' =
       Some (path_join ''data/action-logs'' (sessionId (caught (attempt actions w a)) @ ''.json''),
             res\<lparr>outputFiles := []\<rparr>)"
    by (simp_all add: a' r f)
qed

lemma attempt_frame:
  "attempt actions w a = (c, a') \<Longrightarrow>
     maxSteps a' = maxSteps a \<and> sessionId a' = sessionId a \<and> logFile a' = logFile a \<and>
     (\<exists>ys. actionLog a' = actionLog a @ ys)"
  by (auto simp: attempt_def split: startup.splits dest!: loop_frame)

subsection \<open>Cleanup and persistence\<close>

text \<open>
  When \<open>run\<close> returns, however the \<open>try\<close> block ended (the loop breaks on a terminal
  action, the loop runs out of steps, or something throws before or inside the loop), no
  browser context is left open and the session record is written: it holds the action log
  as the \<open>try\<close> block left it, followed by the error entry when something was thrown,
  and every entry logged before the run is still in it. \<open>run\<close> returns when
  \<open>browser.close()\<close> does, or when no browser was launched.
\<close>

lemma run_closes_and_saves:
  assumes "run actions w a = Inr (a', res)"
  shows "browser a' =
       (case browser (snd (attempt actions w a)) of NoBrowser \<Rightarrow> NoBrowser
        | _ \<Rightarrow> BrowserClosed) \<and>
     browser a' \<noteq> BrowserOpen \<and>
     logFile a' = Some (''data/action-logs/'' @ sessionId a @ ''.json'', res\<lparr>outputFiles := []\<rparr>) \<and>
     r_actionLog res =
       actionLog (snd (attempt actions w a)) @
         (case fst (attempt actions w a) of
            Thrown e \<Rightarrow> [ErrorEntry (currentStep (snd (attempt actions w a))) e]
          | _ \<Rightarrow> []) \<and>
     totalSteps res = currentStep (snd (attempt actions w a)) \<and>
     (\<exists>ys. r_actionLog res = actionLog a @ ys)"
proof -
  obtain c a0 where at: "attempt actions w a = (c, a0)"
    by (cases "attempt actions w a")
  from attempt_frame [OF at] obtain ys where
    fr: "sessionId a0 = sessionId a" "actionLog a0 = actionLog a @ ys"
    by auto
  show ?thesis
    using run_fields [OF assms]
    by (simp add: at caught_fields fr path_join_def split: browser_state.splits control.splits)
qed

text \<open>
  C1. The run releases the browser and writes the session record with the log so far on
  every exit path of the step loop. The code does so only when \<open>browser.close()\<close>
  returns: \<open>run\<close> awaits \<open>close\<close> in its \<open>finally\<close> without a guard and saves after
  it. In a run whose loop logs a failed \<open>hover\<close> and ends on \<open>terminate\<close>, and whose
  \<open>browser.close()\<close> rejects, \<open>run\<close> rejects with that fault: the browser context is
  still open, two entries are in the log, and no session record is written.
\<close>

theorem close_fault_skips_save:
  "\<exists>st. run (loadPlugins plugins []) close_rejecting (new_Agent 5 0 ''s1'') =
       Inl (''Target page, context or browser has been closed'', st) \<and>
     browser st = BrowserOpen \<and>
     map entry_type (actionLog st) = [''hover'', ''terminate''] \<and>
     logFile st = None"
proof -
  have at: "attempt (loadPlugins plugins []) close_rejecting (new_Agent 5 0 ''s1'') =
      (Break,
       (new_Agent 5 0 ''s1'')\<lparr>browser := BrowserOpen, currentStep := 2,
          actionLog := [ActionEntry 1 (plain_action ''hover'') False
                          (Some ''Element ID is required''),
                        ActionEntry 2 (plain_action ''terminate'') True None]\<rparr>)"
    by (simp add: close_rejecting_def attempt_def loop.simps sample_defs step_defs)
  have c: "closing close_rejecting = Some ''Target page, context or browser has been closed''"
    by (simp add: close_rejecting_def)
  have r: "run (loadPlugins plugins []) close_rejecting (new_Agent 5 0 ''s1'') =
      Inl (''Target page, context or browser has been closed'',
           caught (attempt (loadPlugins plugins []) close_rejecting (new_Agent 5 0 ''s1'')))"
    unfolding run_rejects at using c by simp
  show ?thesis
    unfolding r at by (simp add: caught_def new_Agent_def plain_action_def)
qed

subsection \<open>The final status\<close>

lemma terminal_kind:
  assumes "set (getTerminalActions actions) \<subseteq> K" and "isTerminal actions k"
  shows "k \<in> K"
proof -
  from assms(2) obtain c where c: "map_of actions k = Some c" "static_isTerminal c"
    by (auto simp: isTerminal_def get_def split: option.splits)
  then have "(k, c) \<in> set actions"
    by (simp add: map_of_SomeD)
  with c have "k \<in> set (getTerminalActions actions)"
    by (force simp: getTerminalActions_def getAll_def)
  with assms(1) show ?thesis
    by auto
qed

lemma getStatus_after_attempt:
  assumes "set (getTerminalActions actions) \<subseteq> {''complete'', ''terminate''}"
  shows "getStatus (caught (attempt actions w a)) \<noteq> ''unknown''"
proof -
  obtain c a' where at: "attempt actions w a = (c, a')"
    by (cases "attempt actions w a")
  show ?thesis
  proof (cases c)
    case (Thrown e)
    with at show ?thesis
      by (simp add: caught_def getStatus_def)
  next
    case Normal
    with at have "startup w = Ready" and "loop actions w (a\<lparr>browser := BrowserOpen\<rparr>) = (Normal, a')"
      by (auto simp: attempt_def split: startup.splits)
    then have "maxSteps a' \<le> currentStep a'"
      by (simp add: loop_normal)
    with at Normal show ?thesis
      by (simp add: caught_def getStatus_def Let_def)
  next
    case Break
    with at have "loop actions w (a\<lparr>browser := BrowserOpen\<rparr>) = (Break, a')"
      by (auto simp: attempt_def split: startup.splits)
    from loop_break [OF this] obtain a0 pg em act res where
      t: "isTerminal actions (action_type act)" and a': "a' = capture act (logged a0 act res)"
      by blast
    from terminal_kind [OF assms t] have "action_type act = ''complete'' \<or> action_type act = ''terminate''"
      by simp
    with at Break a' show ?thesis
      by (auto simp: caught_def getStatus_def Let_def capture_fields logged_def)
  qed
qed

text \<open>
  C6, as amended. When the terminal kinds of the registry are \<open>complete\<close> and
  \<open>terminate\<close>, the status saved by a run is one of \<open>completed\<close>, \<open>terminated\<close>,
  \<open>error\<close>, \<open>max_steps_reached\<close>, \<open>no_actions\<close>, and it is decided in this order:
  \<open>no_actions\<close> for an empty log, then the kind of the last entry (\<open>complete\<close>,
  \<open>terminate\<close>, \<open>error\<close>), and \<open>max_steps_reached\<close> otherwise, when the step count
  has reached the maximum.
\<close>

theorem status_at_save_time:
  assumes "set (getTerminalActions actions) \<subseteq> {''complete'', ''terminate''}"
    and "run actions w a = Inr (a', res)"
  shows
    "status res \<in>
       {''completed'', ''terminated'', ''error'', ''max_steps_reached'', ''no_actions''} \<and>
     status res =
       (if r_actionLog res = [] then ''no_actions''
        else if entry_type (last (r_actionLog res)) = ''complete'' then ''completed''
        else if entry_type (last (r_actionLog res)) = ''terminate'' then ''terminated''
        else if entry_type (last (r_actionLog res)) = ''error'' then ''error''
        else ''max_steps_reached'') \<and>
     (status res = ''max_steps_reached'' \<longrightarrow> maxSteps a \<le> totalSteps res)"
proof -
  obtain c a0 where at: "attempt actions w a = (c, a0)"
    by (cases "attempt actions w a")
  have ms: "maxSteps a0 = maxSteps a"
    using attempt_frame [OF at] by simp
  have nu: "getStatus (caught (c, a0)) \<noteq> ''unknown''"
    using getStatus_after_attempt [OF assms(1), of w a] at by simp
  show ?thesis
    using nu ms run_fields(2,3,6) [OF assms(2)]
    by (simp add: at getStatus_def Let_def caught_fields split: if_splits)
qed

text \<open>
  C6 as stated has \<open>max_steps_reached\<close> exactly when the step count reached the
  maximum. With a maximum of one step and \<open>complete\<close> decided in that step, the count
  reaches the maximum and the status is \<open>completed\<close>.
\<close>

theorem status_at_maximum_counterexample:
  "maxSteps (new_Agent 1 0 ''s1'') = 1 \<and>
   (\<exists>a' res. run (loadPlugins plugins []) (scripted [plain_action ''complete''])
        (new_Agent 1 0 ''s1'') = Inr (a', res) \<and>
      totalSteps res = 1 \<and> status res = ''completed'')"
proof -
  obtain a' res where r: "run (loadPlugins plugins []) (scripted [plain_action ''complete''])
        (new_Agent 1 0 ''s1'') = Inr (a', res)"
    using scripted_runs by blast
  from run_fields(3,6) [OF r] have "totalSteps res = 1 \<and> status res = ''completed''"
    by (simp add: attempt_def caught_def getStatus_def loop.simps sample_defs step_defs)
  with r show ?thesis
    by (auto simp: new_Agent_def)
qed

theorem status_at_save_time_witness:
  "set (getTerminalActions (loadPlugins plugins [])) \<subseteq> {''complete'', ''terminate''} \<and>
   (\<exists>a' res. run (loadPlugins plugins [])
        (scripted [plain_action ''noop'', plain_action ''terminate'']) (new_Agent 5 0 ''s1'') =
          Inr (a', res) \<and>
      status res = ''terminated'')"
proof -
  let ?w = "scripted [plain_action ''noop'', plain_action ''terminate'']"
  have g: "set (getTerminalActions (loadPlugins plugins [])) \<subseteq> {''complete'', ''terminate''}"
    by (simp add: getTerminalActions_def getAll_def sample_defs)
  obtain a' res where r: "run (loadPlugins plugins []) ?w (new_Agent 5 0 ''s1'') = Inr (a', res)"
    using scripted_runs by blast
  from run_fields(2) [OF r]
  have l: "entry_type (last (r_actionLog res)) = ''terminate'' \<and> r_actionLog res \<noteq> []"
    by (simp add: attempt_def caught_def loop.simps sample_defs step_defs)
  from status_at_save_time [OF g r] l have "status res = ''terminated''"
    by simp
  with g r show ?thesis
    by (intro conjI exI)
qed

subsection \<open>Running to the maximum\<close>







subsection \<open>Terminal actions\<close>

lemma loop_terminal_last:
  "loop actions w a = (c, a') \<Longrightarrow>
     \<exists>ys. actionLog a' = actionLog a @ ys \<and>
       (\<forall>e\<in>set (butlast ys). \<not> isTerminal actions (entry_type e))"
proof (induction actions w a arbitrary: c a' rule: loop.induct)
  case (1 actions w a)
  show ?case
  proof (cases "currentStep a < maxSteps a")
    case False
    with "1.prems" show ?thesis
      by (simp add: loop_exhausted)
  next
    case True
    obtain x y where it: "iteration actions w a = (x, y)"
      by (cases "iteration actions w a")
    from iteration_result [OF it]
    consider (thrown) "actionLog y = actionLog a" "x \<noteq> Normal"
      | (final) e where "actionLog y = actionLog a @ [e]" "x \<noteq> Normal"
      | (plain) e where "actionLog y = actionLog a @ [e]" "x = Normal"
          "\<not> isTerminal actions (entry_type e)"
      by (cases x) (auto simp: capture_fields logged_def split: if_splits)
    then show ?thesis
    proof cases
      case thrown
      with True it "1.prems" have "a' = y"
        by (cases x) (simp_all add: loop_breaks loop_throws)
      with thrown show ?thesis by simp
    next
      case (final e)
      with True it "1.prems" have "a' = y"
        by (cases x) (simp_all add: loop_breaks loop_throws)
      with final show ?thesis by simp
    next
      case (plain e)
      with True it "1.prems" have "loop actions w y = (c, a')"
        by (simp add: loop_continues)
      from "1.IH" [OF True it [symmetric] plain(2) this] obtain zs where
        zs: "actionLog a' = actionLog y @ zs"
          "\<forall>e\<in>set (butlast zs). \<not> isTerminal actions (entry_type e)"
        by blast
      with plain have "actionLog a' = actionLog a @ (e # zs)"
        by simp
      moreover from zs plain have "\<forall>e\<in>set (butlast (e # zs)). \<not> isTerminal actions (entry_type e)"
        by simp
      ultimately show ?thesis
        by blast
    qed
  qed
qed

text \<open>
  C7. When the action of the next step has a terminal kind, the loop returns right after
  that step, whatever outcome the executor returned for it: the step counter and the log
  are those of that step. Over a whole loop, an entry with a terminal kind can only be
  the last entry the loop appended, and the step count that \<open>run\<close> saves is the one
  the loop ended with.
\<close>

theorem terminal_action_ends_loop:
  "(currentStep a < maxSteps a \<and>
    pageState (steps w (Suc (currentStep a))) = Inr em \<and>
    decision (steps w (Suc (currentStep a))) = Inr raw \<and>
    parseAction w raw em = Inr act \<and>
    announce (steps w (Suc (currentStep a))) = None \<and>
    isTerminal actions (action_type act) \<longrightarrow>
      (\<exists>res. execute actions (live (steps w (Suc (currentStep a)))) em act = Inr res \<and>
         loop actions w a =
           (Break,
            capture act
              (a\<lparr>currentStep := Suc (currentStep a),
                 actionLog := actionLog a @
                   [ActionEntry (Suc (currentStep a)) act (success res) (error res)]\<rparr>)))) \<and>
   (\<forall>ys. actionLog (snd (loop actions w a)) = actionLog a @ ys \<longrightarrow>
      (\<forall>e\<in>set (butlast ys). \<not> isTerminal actions (entry_type e))) \<and>
   (\<forall>a' res. run actions w a = Inr (a', res) \<longrightarrow>
      totalSteps res = currentStep (snd (attempt actions w a)))"
proof (intro conjI impI allI)
  let ?sw = "steps w (Suc (currentStep a))"
  assume h: "currentStep a < maxSteps a \<and> pageState ?sw = Inr em \<and> decision ?sw = Inr raw \<and>
    parseAction w raw em = Inr act \<and> announce ?sw = None \<and> isTerminal actions (action_type act)"
  obtain res where ex: "execute actions (live ?sw) em act = Inr res"
    using execute_returns by blast
  with h have "iteration actions w a =
      (Break, capture act (logged (a\<lparr>currentStep := Suc (currentStep a)\<rparr>) act res))"
    by (simp add: iteration_acts)
  with h have "loop actions w a =
      (Break, capture act (logged (a\<lparr>currentStep := Suc (currentStep a)\<rparr>) act res))"
    by (simp add: loop_breaks)
  with ex show "\<exists>res. execute actions (live ?sw) em act = Inr res \<and>
         loop actions w a =
           (Break,
            capture act
              (a\<lparr>currentStep := Suc (currentStep a),
                 actionLog := actionLog a @
                   [ActionEntry (Suc (currentStep a)) act (success res) (error res)]\<rparr>))"
    by (auto simp: logged_def)
next
  fix ys
  assume ys: "actionLog (snd (loop actions w a)) = actionLog a @ ys"
  obtain c a' where l: "loop actions w a = (c, a')"
    by (cases "loop actions w a")
  from loop_terminal_last [OF l] ys l
  show "\<forall>e\<in>set (butlast ys). \<not> isTerminal actions (entry_type e)"
    by auto
next
  fix a' res
  assume "run actions w a = Inr (a', res)"
  from run_fields(3) [OF this]
  show "totalSteps res = currentStep (snd (attempt actions w a))"
    by (cases "attempt actions w a") (simp add: caught_fields)
qed

theorem terminal_action_ends_loop_witness:
  "isTerminal (loadPlugins plugins []) ''terminate'' \<and>
   loop (loadPlugins plugins []) (scripted [plain_action ''terminate'', plain_action ''hover''])
       (new_Agent 5 0 ''s1'') =
     (Break, (new_Agent 5 0 ''s1'')\<lparr>currentStep := 1,
        actionLog := [ActionEntry 1 (plain_action ''terminate'') True None]\<rparr>) \<and>
   (\<exists>a' res. run (loadPlugins plugins [])
        (scripted [plain_action ''terminate'', plain_action ''hover'']) (new_Agent 5 0 ''s1'') =
          Inr (a', res) \<and>
      totalSteps res = 1)"
proof -
  let ?w = "scripted [plain_action ''terminate'', plain_action ''hover'']"
  have t: "isTerminal (loadPlugins plugins []) ''terminate''"
    by (simp add: isTerminal_def get_def sample_defs)
  have h: "currentStep (new_Agent 5 0 ''s1'') < maxSteps (new_Agent 5 0 ''s1'') \<and>
      pageState (steps ?w (Suc (currentStep (new_Agent 5 0 ''s1'')))) = Inr Map.empty \<and>
      decision (steps ?w (Suc (currentStep (new_Agent 5 0 ''s1'')))) =
        Inr (plain_action ''terminate'') \<and>
      parseAction ?w (plain_action ''terminate'') Map.empty = Inr (plain_action ''terminate'') \<and>
      announce (steps ?w (Suc (currentStep (new_Agent 5 0 ''s1'')))) = None \<and>
      isTerminal (loadPlugins plugins []) (action_type (plain_action ''terminate''))"
    using t by (simp add: scripted_def new_Agent_def plain_action_def)
  have e: "execute (loadPlugins plugins [])
      (live (steps ?w (Suc (currentStep (new_Agent 5 0 ''s1''))))) Map.empty
      (plain_action ''terminate'') =
    Inr \<lparr>success = True, error = None,
         data = JObj [(''terminated'', JBool True), (''reason'', JStr ''Task terminated'')],
         message = None\<rparr>"
    by (simp add: sample_defs step_defs)
  from terminal_action_ends_loop [of "new_Agent 5 0 ''s1''" ?w Map.empty
      "plain_action ''terminate''" "plain_action ''terminate''" "loadPlugins plugins []"] h
  obtain res where r: "execute (loadPlugins plugins [])
      (live (steps ?w (Suc (currentStep (new_Agent 5 0 ''s1''))))) Map.empty
      (plain_action ''terminate'') = Inr res"
    and l: "loop (loadPlugins plugins []) ?w (new_Agent 5 0 ''s1'') =
      (Break, capture (plain_action ''terminate'')
         ((new_Agent 5 0 ''s1'')\<lparr>currentStep := Suc (currentStep (new_Agent 5 0 ''s1'')),
            actionLog := actionLog (new_Agent 5 0 ''s1'') @
              [ActionEntry (Suc (currentStep (new_Agent 5 0 ''s1''))) (plain_action ''terminate'')
                 (success res) (error res)]\<rparr>))"
    by blast
  from r e have "success res = True \<and> error res = None"
    by auto
  with l have lp: "loop (loadPlugins plugins []) ?w (new_Agent 5 0 ''s1'') =
     (Break, (new_Agent 5 0 ''s1'')\<lparr>currentStep := 1,
        actionLog := [ActionEntry 1 (plain_action ''terminate'') True None]\<rparr>)"
    by (simp add: capture_def plain_action_def new_Agent_def)
  obtain a' rs where rn: "run (loadPlugins plugins []) ?w (new_Agent 5 0 ''s1'') = Inr (a', rs)"
    using scripted_runs by blast
  have at: "currentStep (snd (attempt (loadPlugins plugins []) ?w (new_Agent 5 0 ''s1''))) = 1"
    by (simp add: attempt_def loop.simps sample_defs step_defs)
  from terminal_action_ends_loop [of "new_Agent 5 0 ''s1''" ?w Map.empty
      "plain_action ''terminate''" "plain_action ''terminate''" "loadPlugins plugins []"] rn at
  have "totalSteps rs = 1"
    by simp
  with t lp rn show ?thesis
    by (intro conjI exI)
qed

lemma terminal_session_success:
  assumes "get actions ''complete'' = Some CompleteAction"
    and "get actions ''terminate'' = Some TerminateAction"
    and "set (getTerminalActions actions) \<subseteq> {''complete'', ''terminate''}"
    and "fst (attempt actions w a) = Break"
    and "run actions w a = Inr (st, rs)"
  shows "r_actionLog rs \<noteq> [] \<and>
      entry_success (last (r_actionLog rs)) = Some True \<and>
      entry_error (last (r_actionLog rs)) = None"
proof -
  from assms(4) obtain a' where at: "attempt actions w a = (Break, a')"
    by (cases "attempt actions w a") simp
  then have "loop actions w (a\<lparr>browser := BrowserOpen\<rparr>) = (Break, a')"
    by (auto simp: attempt_def split: startup.splits)
  from loop_break [OF this] obtain a0 pg' em' act' res where
    ex: "execute actions pg' em' act' = Inr res"
    and t: "isTerminal actions (action_type act')"
    and a': "a' = capture act' (logged a0 act' res)"
    by blast
  from assms(3) t have "action_type act' = ''complete'' \<or> action_type act' = ''terminate''"
    using terminal_kind by blast
  with assms(1,2) ex have "success res \<and> error res = None"
    by (auto simp: execute_def try_catch_def CompleteAction_def TerminateAction_def
        CompleteAction_execute_def TerminateAction_execute_def)
  then show ?thesis
    by (simp add: run_fields(2) [OF assms(5)] at caught_fields a' capture_fields logged_def)
qed

text \<open>
  C9. The handlers of the two terminal plugins return \<open>success: true\<close> on every input:
  \<open>complete\<close> with the extracted data, or \<open>null\<close> when it is falsy, as payload, and
  \<open>terminate\<close> with the reason, or \<open>Task terminated\<close> when it is falsy. So, with these
  two plugins registered under their kinds and no other terminal kind, the last log entry
  that a run saves after its loop ended on a terminal action records \<open>success: true\<close>
  and no error.
\<close>

theorem terminal_handlers_succeed:
  "CompleteAction_execute pg em act =
     Inr \<lparr>success = True, error = None,
          data = (if truthy (extracted_data act) then extracted_data act else JNull),
          message = None\<rparr> \<and>
   TerminateAction_execute pg em act =
     Inr \<lparr>success = True, error = None,
          data = JObj [(''terminated'', JBool True),
                       (''reason'', if truthy (reason act) then reason act
                                    else JStr ''Task terminated'')],
          message = None\<rparr> \<and>
   (get actions ''complete'' = Some CompleteAction \<and>
    get actions ''terminate'' = Some TerminateAction \<and>
    set (getTerminalActions actions) \<subseteq> {''complete'', ''terminate''} \<and>
    fst (attempt actions w a) = Break \<and> run actions w a = Inr (a', res) \<longrightarrow>
      r_actionLog res \<noteq> [] \<and>
      entry_success (last (r_actionLog res)) = Some True \<and>
      entry_error (last (r_actionLog res)) = None)"
proof -
  have "CompleteAction_execute pg em act =
     Inr \<lparr>success = True, error = None,
          data = (if truthy (extracted_data act) then extracted_data act else JNull),
          message = None\<rparr>"
    by (simp add: CompleteAction_execute_def or_else_def)
  moreover have "TerminateAction_execute pg em act =
     Inr \<lparr>success = True, error = None,
          data = JObj [(''terminated'', JBool True),
                       (''reason'', if truthy (reason act) then reason act
                                    else JStr ''Task terminated'')],
          message = None\<rparr>"
    by (simp add: TerminateAction_execute_def or_else_def)
  ultimately show ?thesis
    using terminal_session_success [of actions w a a' res] by simp
qed

theorem terminal_handlers_succeed_witness:
  "fst (attempt (loadPlugins plugins [])
          (scripted [plain_action ''noop'', plain_action ''terminate''])
          (new_Agent 5 0 ''s1'')) = Break \<and>
   (\<exists>a' res. run (loadPlugins plugins [])
          (scripted [plain_action ''noop'', plain_action ''terminate''])
          (new_Agent 5 0 ''s1'') = Inr (a', res) \<and>
      entry_success (last (r_actionLog res)) = Some True)"
proof -
  let ?w = "scripted [plain_action ''noop'', plain_action ''terminate'']"
  have g: "get (loadPlugins plugins []) ''complete'' = Some CompleteAction \<and>
      get (loadPlugins plugins []) ''terminate'' = Some TerminateAction \<and>
      set (getTerminalActions (loadPlugins plugins [])) \<subseteq> {''complete'', ''terminate''}"
    by (simp add: plugins_registry get_def getTerminalActions_def getAll_def
        ClickAction_def HoverAction_def UnfinishedAction_def)
  have b: "fst (attempt (loadPlugins plugins []) ?w (new_Agent 5 0 ''s1'')) = Break"
    by (simp add: attempt_def loop.simps sample_defs step_defs)
  obtain a' res where r: "run (loadPlugins plugins []) ?w (new_Agent 5 0 ''s1'') = Inr (a', res)"
    using scripted_runs by blast
  from terminal_handlers_succeed [of blank_page Map.empty "plain_action ''terminate''"
      "loadPlugins plugins []" ?w "new_Agent 5 0 ''s1''" a' res] g b r
  have "entry_success (last (r_actionLog res)) = Some True"
    by simp
  with b r show ?thesis
    by (intro conjI exI)
qed

subsection \<open>The decision provider\<close>

lemma attempts_exhausted:
  "\<forall>i. k \<le> i \<and> i < k + n \<longrightarrow> isl (call i) \<Longrightarrow> attempts n k call = call (k + n)"
proof (induction n arbitrary: k)
  case 0
  show ?case by simp
next
  case (Suc n)
  from Suc.prems have "isl (call k)"
    by simp
  then obtain e where e: "call k = Inl e"
    by (cases "call k") auto
  have "attempts n (Suc k) call = call (Suc k + n)"
    using Suc.prems by (intro Suc.IH) auto
  with e show ?case
    by simp
qed

lemma generateAction_fallback:
  assumes "(case rateLimiter of Some limiter \<Rightarrow> limiter apiCall | None \<Rightarrow> apiCall 0) = Inl msg"
  shows "generateAction (Inr p) rateLimiter apiCall = Inr (fallback_action msg)"
  using assms by (simp add: generateAction_def try_catch_def)

lemma generateAction_returns: "\<exists>d. generateAction (Inr p) rateLimiter apiCall = Inr d"
  by (simp add: generateAction_def try_catch_def split: sum.splits)

lemma fallback_step:
  assumes "currentStep a < maxSteps a"
    and "pageState (steps w (Suc (currentStep a))) = Inr em"
    and "decision (steps w (Suc (currentStep a))) = Inr (fallback_action msg)"
    and "parseAction w (fallback_action msg) em = Inr (fallback_action msg)"
    and "announce (steps w (Suc (currentStep a))) = None"
    and "get actions ''terminate'' = Some TerminateAction"
  shows "loop actions w a =
     (Break, a\<lparr>currentStep := Suc (currentStep a),
               actionLog := actionLog a @
                 [ActionEntry (Suc (currentStep a)) (fallback_action msg) True None]\<rparr>)"
proof -
  let ?sw = "steps w (Suc (currentStep a))"
  have ex: "execute actions (live ?sw) em (fallback_action msg) =
      Inr \<lparr>success = True, error = None,
           data = JObj [(''terminated'', JBool True), (''reason'', JStr ''Task terminated'')],
           message = None\<rparr>"
    using assms(6)
    by (simp add: execute_def fallback_action_def try_catch_def TerminateAction_def
        TerminateAction_execute_def or_else_def)
  have t: "isTerminal actions (action_type (fallback_action msg))"
    using assms(6) by (simp add: isTerminal_def fallback_action_def TerminateAction_def)
  from iteration_acts [OF assms(2-5) ex] t
  have "iteration actions w a =
      (Break, capture (fallback_action msg)
         (logged (a\<lparr>currentStep := Suc (currentStep a)\<rparr>) (fallback_action msg)
            \<lparr>success = True, error = None,
              data = JObj [(''terminated'', JBool True), (''reason'', JStr ''Task terminated'')],
              message = None\<rparr>))"
    by simp
  with assms(1) show ?thesis
    by (simp add: loop_breaks capture_def logged_def fallback_action_def)
qed

text \<open>
  C5, as amended. Once the prompt is built, \<open>generateAction\<close> returns a decision and
  never throws. When the provider call (through the rate limiter, if there is one) ends
  in an error, also after a bounded retry has used up its attempts, the decision is
  \<open>terminate\<close> with the error text in \<open>reasoning\<close> (after the prefix
  \<open>LLM API error: \<close>) and in \<open>errors\<close>; it has no \<open>reason\<close>. When the parser
  accepts that decision as it is and \<open>terminate\<close> is the terminate plugin, the loop
  ends at that step: the last log entry has kind \<open>terminate\<close>, the error text in its
  reasoning and \<open>success: true\<close>, and the status is \<open>terminated\<close>.
\<close>

theorem provider_failure_falls_back:
  "(\<exists>d. generateAction (Inr p) rateLimiter apiCall = Inr d) \<and>
   ((case rateLimiter of Some limiter \<Rightarrow> limiter apiCall | None \<Rightarrow> apiCall 0) = Inl msg \<longrightarrow>
      generateAction (Inr p) rateLimiter apiCall =
        Inr \<lparr>action_type = ''terminate'', reasoning = ''LLM API error: '' @ msg,
             element_id = None, reason = JUndefined, extracted_data = JUndefined,
             output_format = None, output_title = None, errors = [msg], step = None\<rparr>) \<and>
   ((\<forall>i<ceiling. isl (apiCall i)) \<and> apiCall ceiling = Inl msg \<longrightarrow>
      generateAction (Inr p) (Some (bounded_retry ceiling)) apiCall =
        Inr (fallback_action msg)) \<and>
   (currentStep a < maxSteps a \<and>
    pageState (steps w (Suc (currentStep a))) = Inr em \<and>
    decision (steps w (Suc (currentStep a))) = generateAction (Inr p) rateLimiter apiCall \<and>
    (case rateLimiter of Some limiter \<Rightarrow> limiter apiCall | None \<Rightarrow> apiCall 0) = Inl msg \<and>
    parseAction w (fallback_action msg) em = Inr (fallback_action msg) \<and>
    announce (steps w (Suc (currentStep a))) = None \<and>
    get actions ''terminate'' = Some TerminateAction \<longrightarrow>
      loop actions w a =
        (Break, a\<lparr>currentStep := Suc (currentStep a),
                  actionLog := actionLog a @
                    [ActionEntry (Suc (currentStep a)) (fallback_action msg) True None]\<rparr>) \<and>
      entry_type (last (actionLog (snd (loop actions w a)))) = ''terminate'' \<and>
      entry_reasoning (last (actionLog (snd (loop actions w a)))) =
        Some (''LLM API error: '' @ msg) \<and>
      getStatus (snd (loop actions w a)) = ''terminated'')"
proof -
  have 1: "\<exists>d. generateAction (Inr p) rateLimiter apiCall = Inr d"
    by (rule generateAction_returns)
  have 2: "(case rateLimiter of Some limiter \<Rightarrow> limiter apiCall | None \<Rightarrow> apiCall 0) = Inl msg \<longrightarrow>
      generateAction (Inr p) rateLimiter apiCall =
        Inr \<lparr>action_type = ''terminate'', reasoning = ''LLM API error: '' @ msg,
             element_id = None, reason = JUndefined, extracted_data = JUndefined,
             output_format = None, output_title = None, errors = [msg], step = None\<rparr>"
    by (simp add: generateAction_fallback fallback_action_def)
  have 3: "(\<forall>i<ceiling. isl (apiCall i)) \<and> apiCall ceiling = Inl msg \<longrightarrow>
      generateAction (Inr p) (Some (bounded_retry ceiling)) apiCall =
        Inr (fallback_action msg)"
  proof
    assume h: "(\<forall>i<ceiling. isl (apiCall i)) \<and> apiCall ceiling = Inl msg"
    then have "attempts ceiling 0 apiCall = apiCall (0 + ceiling)"
      by (intro attempts_exhausted) simp
    with h show "generateAction (Inr p) (Some (bounded_retry ceiling)) apiCall =
        Inr (fallback_action msg)"
      by (simp add: generateAction_fallback bounded_retry_def)
  qed
  have 4: "currentStep a < maxSteps a \<and>
    pageState (steps w (Suc (currentStep a))) = Inr em \<and>
    decision (steps w (Suc (currentStep a))) = generateAction (Inr p) rateLimiter apiCall \<and>
    (case rateLimiter of Some limiter \<Rightarrow> limiter apiCall | None \<Rightarrow> apiCall 0) = Inl msg \<and>
    parseAction w (fallback_action msg) em = Inr (fallback_action msg) \<and>
    announce (steps w (Suc (currentStep a))) = None \<and>
    get actions ''terminate'' = Some TerminateAction \<longrightarrow>
      loop actions w a =
        (Break, a\<lparr>currentStep := Suc (currentStep a),
                  actionLog := actionLog a @
                    [ActionEntry (Suc (currentStep a)) (fallback_action msg) True None]\<rparr>) \<and>
      entry_type (last (actionLog (snd (loop actions w a)))) = ''terminate'' \<and>
      entry_reasoning (last (actionLog (snd (loop actions w a)))) =
        Some (''LLM API error: '' @ msg) \<and>
      getStatus (snd (loop actions w a)) = ''terminated''"
  proof
    assume h: "currentStep a < maxSteps a \<and>
      pageState (steps w (Suc (currentStep a))) = Inr em \<and>
      decision (steps w (Suc (currentStep a))) = generateAction (Inr p) rateLimiter apiCall \<and>
      (case rateLimiter of Some limiter \<Rightarrow> limiter apiCall | None \<Rightarrow> apiCall 0) = Inl msg \<and>
      parseAction w (fallback_action msg) em = Inr (fallback_action msg) \<and>
      announce (steps w (Suc (currentStep a))) = None \<and>
      get actions ''terminate'' = Some TerminateAction"
    then have h1: "currentStep a < maxSteps a"
      and h2: "pageState (steps w (Suc (currentStep a))) = Inr em"
      and h3: "decision (steps w (Suc (currentStep a))) = generateAction (Inr p) rateLimiter apiCall"
      and h4: "(case rateLimiter of Some limiter \<Rightarrow> limiter apiCall | None \<Rightarrow> apiCall 0) = Inl msg"
      and h5: "parseAction w (fallback_action msg) em = Inr (fallback_action msg)"
      and h6: "announce (steps w (Suc (currentStep a))) = None"
      and h7: "get actions ''terminate'' = Some TerminateAction"
      by blast+
    from h3 h4 have d: "decision (steps w (Suc (currentStep a))) = Inr (fallback_action msg)"
      by (simp add: generateAction_fallback)
    from h1 h2 d h5 h6 h7 have l: "loop actions w a =
        (Break, a\<lparr>currentStep := Suc (currentStep a),
                  actionLog := actionLog a @
                    [ActionEntry (Suc (currentStep a)) (fallback_action msg) True None]\<rparr>)"
      by (rule fallback_step)
    then show "loop actions w a =
        (Break, a\<lparr>currentStep := Suc (currentStep a),
                  actionLog := actionLog a @
                    [ActionEntry (Suc (currentStep a)) (fallback_action msg) True None]\<rparr>) \<and>
      entry_type (last (actionLog (snd (loop actions w a)))) = ''terminate'' \<and>
      entry_reasoning (last (actionLog (snd (loop actions w a)))) =
        Some (''LLM API error: '' @ msg) \<and>
      getStatus (snd (loop actions w a)) = ''terminated''"
      by (simp add: getStatus_def fallback_action_def)
  qed
  from 1 2 3 4 show ?thesis
    by (intro conjI)
qed


text \<open>
  C5 as stated has the error text in the \<open>reason\<close> of the decision. The fallback
  decision for the error \<open>quota exceeded\<close> has no \<open>reason\<close>; the text is in its
  \<open>reasoning\<close>.
\<close>

theorem fallback_reason_counterexample:
  "generateAction (Inr ''prompt'') None (always_failing ''quota exceeded'') =
     Inr (fallback_action ''quota exceeded'') \<and>
   reason (fallback_action ''quota exceeded'') = JUndefined \<and>
   reason (fallback_action ''quota exceeded'') \<noteq> JStr ''quota exceeded'' \<and>
   reasoning (fallback_action ''quota exceeded'') = ''LLM API error: quota exceeded''"
  by (simp add: generateAction_def try_catch_def always_failing_def fallback_action_def)

theorem provider_failure_falls_back_witness:
  "bounded_retry 2 (always_failing ''quota exceeded'') = Inl ''quota exceeded'' \<and>
   loop (loadPlugins plugins []) provider_down (new_Agent 5 0 ''s1'') =
     (Break, (new_Agent 5 0 ''s1'')\<lparr>currentStep := 1,
        actionLog := [ActionEntry 1 (fallback_action ''quota exceeded'') True None]\<rparr>) \<and>
   getStatus (snd (loop (loadPlugins plugins []) provider_down (new_Agent 5 0 ''s1''))) =
     ''terminated''"
proof -
  have r: "bounded_retry 2 (always_failing ''quota exceeded'') = Inl ''quota exceeded''"
    by (simp add: bounded_retry_def always_failing_def numeral_2_eq_2)
  have h: "currentStep (new_Agent 5 0 ''s1'') < maxSteps (new_Agent 5 0 ''s1'') \<and>
      pageState (steps provider_down (Suc (currentStep (new_Agent 5 0 ''s1'')))) = Inr Map.empty \<and>
      decision (steps provider_down (Suc (currentStep (new_Agent 5 0 ''s1'')))) =
        generateAction (Inr ''prompt'') (Some (bounded_retry 2)) (always_failing ''quota exceeded'') \<and>
      (case Some (bounded_retry 2) of Some limiter \<Rightarrow> limiter (always_failing ''quota exceeded'')
       | None \<Rightarrow> always_failing ''quota exceeded'' 0) = Inl ''quota exceeded'' \<and>
      parseAction provider_down (fallback_action ''quota exceeded'') Map.empty =
        Inr (fallback_action ''quota exceeded'') \<and>
      announce (steps provider_down (Suc (currentStep (new_Agent 5 0 ''s1'')))) = None \<and>
      get (loadPlugins plugins []) ''terminate'' = Some TerminateAction"
    using r by (simp add: provider_down_def new_Agent_def plugins_registry get_def)
  note t = provider_failure_falls_back [of "''prompt''" "Some (bounded_retry 2)"
      "always_failing ''quota exceeded''" "''quota exceeded''" 2 "new_Agent 5 0 ''s1''"
      provider_down Map.empty "loadPlugins plugins []"]
  from t [THEN conjunct2, THEN conjunct2, THEN conjunct2, THEN mp, OF h] r
  show ?thesis
    by (simp add: new_Agent_def getStatus_def fallback_action_def)
qed


subsection \<open>Output format and title\<close>







subsection \<open>The registry\<close>

lemma map_of_load_file:
  "map_of (load_file f r) k =
     (case f of
        Broken msg \<Rightarrow> map_of r k
      | Exports c \<Rightarrow>
          if static_type c \<noteq> [] \<and> static_type c \<noteq> ''unknown'' \<and> k = static_type c
          then Some c else map_of r k)"
  by (cases f) (auto simp: register_def update_conv')

lemma map_of_fold_load:
  "map_of (fold load_file fs r) k =
     (case map_of (fold load_file fs []) k of Some c \<Rightarrow> Some c | None \<Rightarrow> map_of r k)"
proof (induction fs arbitrary: r)
  case Nil
  show ?case by simp
next
  case (Cons f fs)
  have "map_of (fold load_file fs (load_file f r)) k =
      (case map_of (fold load_file fs []) k of Some c \<Rightarrow> Some c
       | None \<Rightarrow> map_of (load_file f r) k)"
    by (rule Cons.IH)
  moreover have "map_of (fold load_file fs (load_file f [])) k =
      (case map_of (fold load_file fs []) k of Some c \<Rightarrow> Some c
       | None \<Rightarrow> map_of (load_file f []) k)"
    by (rule Cons.IH)
  ultimately show ?case
    by (simp add: map_of_load_file split: option.splits plugin_file.splits)
qed

lemma loaded_initial: "loaded files (loadPlugins files [])"
  by (simp add: loaded_def)

lemma reload_same:
  assumes "loaded files actions"
  shows "get (loadPlugins files actions) k = get actions k"
  using assms map_of_fold_load [of files actions k]
  by (auto simp: loaded_def get_def loadPlugins_def split: option.splits)

lemma apply_event_keeps:
  assumes "loaded files actions"
    and "case ev of Register c \<Rightarrow> \<not> has actions (static_type c) | _ \<Rightarrow> True"
    and "has actions k"
  shows "get (apply_event files ev actions) k = get actions k"
proof (cases ev)
  case (Register c)
  with assms(2,3) show ?thesis
    by (auto simp: register_def get_def has_def update_conv')
next
  case LoadPlugins
  with assms(1) show ?thesis
    by (simp add: reload_same)
next
  case NewExecutor
  with assms(1) show ?thesis
    by (simp add: new_ActionExecutor_def reload_same)
qed

lemma apply_event_loaded:
  assumes "loaded files actions"
    and "case ev of Register c \<Rightarrow> \<not> has actions (static_type c) | _ \<Rightarrow> True"
  shows "loaded files (apply_event files ev actions)"
  unfolding loaded_def
proof (intro allI impI)
  fix k c
  assume "get (loadPlugins files []) k = Some c"
  with assms(1) have g: "get actions k = Some c"
    by (simp add: loaded_def)
  then have "has actions k"
    by (simp add: has_def get_def)
  from apply_event_keeps [OF assms this] g
  show "get (apply_event files ev actions) k = Some c"
    by simp
qed

lemma lifetime_keeps:
  assumes "loaded files actions" and "additive files evs actions" and "has actions k"
  shows "get (lifetime files evs actions) k = get actions k"
  using assms
proof (induction evs arbitrary: actions)
  case Nil
  show ?case by simp
next
  case (Cons ev evs)
  from Cons.prems have st: "case ev of Register c \<Rightarrow> \<not> has actions (static_type c) | _ \<Rightarrow> True"
    and rest: "additive files evs (apply_event files ev actions)"
    by simp_all
  have k: "get (apply_event files ev actions) k = get actions k"
    using Cons.prems(1) st Cons.prems(3) by (rule apply_event_keeps)
  with Cons.prems(3) have "has (apply_event files ev actions) k"
    by (simp add: has_def get_def)
  with apply_event_loaded [OF Cons.prems(1) st] rest
  have "get (lifetime files evs (apply_event files ev actions)) k =
      get (apply_event files ev actions) k"
    by (intro Cons.IH)
  with k show ?case
    by simp
qed

lemma lifetime_loaded:
  assumes "loaded files actions" and "additive files evs actions"
  shows "loaded files (lifetime files evs actions)"
  using assms
proof (induction evs arbitrary: actions)
  case Nil
  then show ?case by simp
next
  case (Cons ev evs)
  then show ?case
    by (simp add: apply_event_loaded)
qed

lemma lifetime_append:
  "lifetime files (evs1 @ evs2) actions = lifetime files evs2 (lifetime files evs1 actions)"
  by (induction evs1 arbitrary: actions) simp_all

lemma additive_append:
  "additive files (evs1 @ evs2) actions =
     (additive files evs1 actions \<and> additive files evs2 (lifetime files evs1 actions))"
  by (induction evs1 arbitrary: actions) auto

text \<open>
  C8, as amended. From the registry the plugins directory loads, along any history in
  which no \<open>register\<close> names a kind that is registered at that moment, once a kind is
  registered its class, and so \<open>requiresElement\<close> and \<open>isTerminal\<close> of the kind, stay
  what they are through the rest of the history. For a kind that is not registered,
  \<open>get\<close> returns \<open>null\<close> and \<open>requiresElement\<close> and \<open>isTerminal\<close> return
  \<open>false\<close>.
\<close>

theorem registry_metadata_fixed:
  "(additive files (evs1 @ evs2) (loadPlugins files []) \<and>
    has (lifetime files evs1 (loadPlugins files [])) k \<longrightarrow>
      requiresElement (lifetime files (evs1 @ evs2) (loadPlugins files [])) k =
        requiresElement (lifetime files evs1 (loadPlugins files [])) k \<and>
      isTerminal (lifetime files (evs1 @ evs2) (loadPlugins files [])) k =
        isTerminal (lifetime files evs1 (loadPlugins files [])) k \<and>
      get (lifetime files (evs1 @ evs2) (loadPlugins files [])) k =
        get (lifetime files evs1 (loadPlugins files [])) k) \<and>
   (\<not> has actions kind \<longrightarrow>
      get actions kind = None \<and> requiresElement actions kind = False \<and>
      isTerminal actions kind = False)"
proof (intro conjI impI)
  let ?r1 = "lifetime files evs1 (loadPlugins files [])"
  assume h: "additive files (evs1 @ evs2) (loadPlugins files []) \<and> has ?r1 k"
  then have a1: "additive files evs1 (loadPlugins files [])" and a2: "additive files evs2 ?r1"
    by (simp_all add: additive_append)
  have "loaded files ?r1"
    using loaded_initial a1 by (rule lifetime_loaded)
  from lifetime_keeps [OF this a2] h
  have g: "get (lifetime files (evs1 @ evs2) (loadPlugins files [])) k = get ?r1 k"
    by (simp add: lifetime_append)
  then show "requiresElement (lifetime files (evs1 @ evs2) (loadPlugins files [])) k =
        requiresElement ?r1 k"
    and "isTerminal (lifetime files (evs1 @ evs2) (loadPlugins files [])) k = isTerminal ?r1 k"
    and "get (lifetime files (evs1 @ evs2) (loadPlugins files [])) k = get ?r1 k"
    by (simp_all add: requiresElement_def isTerminal_def)
next
  assume "\<not> has actions kind"
  then show "get actions kind = None" and "requiresElement actions kind = False"
    and "isTerminal actions kind = False"
    by (simp_all add: has_def get_def requiresElement_def isTerminal_def)
qed

theorem registry_metadata_fixed_witness:
  "additive plugins ([NewExecutor] @ [LoadPlugins, Register WaitAction, NewExecutor])
     (loadPlugins plugins []) \<and>
   has (lifetime plugins [NewExecutor] (loadPlugins plugins [])) ''click'' \<and>
   requiresElement (lifetime plugins ([NewExecutor] @ [LoadPlugins, Register WaitAction, NewExecutor])
     (loadPlugins plugins [])) ''click'' = True \<and>
   isTerminal (lifetime plugins ([NewExecutor] @ [LoadPlugins, Register WaitAction, NewExecutor])
     (loadPlugins plugins [])) ''click'' = False \<and>
   get (loadPlugins plugins []) ''fly'' = None"
proof -
  have n: "new_ActionExecutor plugins (loadPlugins plugins []) = loadPlugins plugins []"
    by (simp add: new_ActionExecutor_def plugins_registry getTypes_def)
  have l: "loadPlugins plugins (loadPlugins plugins []) = loadPlugins plugins []"
    unfolding plugins_registry
    by (simp add: loadPlugins_def plugins_def register_def ClickAction_def TerminateAction_def
        CompleteAction_def HoverAction_def BaseAction_def UnfinishedAction_def)
  have a: "additive plugins ([NewExecutor] @ [LoadPlugins, Register WaitAction, NewExecutor])
     (loadPlugins plugins [])"
    by (simp add: n l) (simp add: plugins_registry has_def WaitAction_def)
  have h: "has (lifetime plugins [NewExecutor] (loadPlugins plugins [])) ''click''"
    by (simp add: n) (simp add: plugins_registry has_def)
  have v: "requiresElement (lifetime plugins [NewExecutor] (loadPlugins plugins [])) ''click'' = True \<and>
      isTerminal (lifetime plugins [NewExecutor] (loadPlugins plugins [])) ''click'' = False"
    by (simp add: n) (simp add: plugins_registry requiresElement_def isTerminal_def get_def
        ClickAction_def)
  have f: "\<not> has (loadPlugins plugins []) ''fly''"
    by (simp add: plugins_registry has_def)
  from registry_metadata_fixed [of plugins "[NewExecutor]"
      "[LoadPlugins, Register WaitAction, NewExecutor]" "''click''" "loadPlugins plugins []"
      "''fly''"] a h v f
  show ?thesis
    by simp
qed

text \<open>
  C8 as stated has the flags of a registered kind fixed for the lifetime of the process,
  the registry being only added to. \<open>register\<close> replaces the class of a kind that is
  already registered: after the plugins are loaded, \<open>click\<close> is registered and not
  terminal, and one \<open>register\<close> of a class of the type \<open>click\<close> that is terminal makes
  \<open>isTerminal\<close> of \<open>click\<close> true.
\<close>

theorem register_overwrites_counterexample:
  "has (loadPlugins plugins []) ''click'' \<and>
   isTerminal (loadPlugins plugins []) ''click'' = False \<and>
   isTerminal (lifetime plugins [Register (ClickAction\<lparr>static_isTerminal := True\<rparr>)]
     (loadPlugins plugins [])) ''click'' = True"
  by (simp add: plugins_registry has_def isTerminal_def get_def register_def ClickAction_def)

end
